theory Spec2Isabelle
  imports Complex_Main "HOL-Library.Multiset"
begin

section \<open>JavaScript values used by the matching routes\<close>

text \<open>
  A JavaScript number is NaN, an infinity or a finite value. The finite doubles are a
  subset of the reals; the routes only compare numbers, subtract two of them to read the
  sign of the difference, and cut one down to an integer, and each of these gives on doubles
  what it gives on the reals.
\<close>

datatype jsnum = NaN | NegInf | Fin real | PosInf

text \<open>The relational operator \<^verbatim>\<open>a > b\<close>: false as soon as one side is NaN.\<close>

fun js_gt :: "jsnum \<Rightarrow> jsnum \<Rightarrow> bool" where
  "js_gt NaN _ = False"
| "js_gt _ NaN = False"
| "js_gt PosInf PosInf = False"
| "js_gt PosInf _ = True"
| "js_gt _ PosInf = False"
| "js_gt NegInf _ = False"
| "js_gt (Fin a) NegInf = True"
| "js_gt (Fin a) (Fin b) = (b < a)"

text \<open>\<^verbatim>\<open>a >= b\<close>, again false on NaN.\<close>

definition js_ge :: "jsnum \<Rightarrow> jsnum \<Rightarrow> bool" where
  "js_ge a b = (a \<noteq> NaN \<and> b \<noteq> NaN \<and> \<not> js_gt b a)"

text \<open>The binary minus: infinities of the same sign cancel to NaN.\<close>

fun js_sub :: "jsnum \<Rightarrow> jsnum \<Rightarrow> jsnum" where
  "js_sub NaN _ = NaN"
| "js_sub _ NaN = NaN"
| "js_sub PosInf PosInf = NaN"
| "js_sub NegInf NegInf = NaN"
| "js_sub PosInf _ = PosInf"
| "js_sub NegInf _ = NegInf"
| "js_sub (Fin a) PosInf = NegInf"
| "js_sub (Fin a) NegInf = PosInf"
| "js_sub (Fin a) (Fin b) = Fin (a - b)"

text \<open>
  A value as it arrives in a JSON request body, with \<^verbatim>\<open>undefined\<close> for what is not
  there. An object is the list of its members.
\<close>

datatype jsval =
    JUndefined
  | JNull
  | JBool bool
  | JNum jsnum
  | JStr string
  | JArr "jsval list"
  | JObj "(string \<times> jsval) list"

text \<open>
  What \<^verbatim>\<open>!x\<close> tests: \<^verbatim>\<open>undefined\<close>, \<^verbatim>\<open>null\<close>, \<^verbatim>\<open>false\<close>, zero, NaN and
  the empty string are falsy, everything else is truthy.
\<close>

fun truthy :: "jsval \<Rightarrow> bool" where
  "truthy JUndefined = False"
| "truthy JNull = False"
| "truthy (JBool b) = b"
| "truthy (JNum n) = (n \<noteq> NaN \<and> n \<noteq> Fin 0)"
| "truthy (JStr s) = (s \<noteq> [])"
| "truthy (JArr _) = True"
| "truthy (JObj _) = True"

text \<open>
  Reading a property: only an object has members of its own, and of a member given twice
  the JSON parser keeps the last. On any other value the read gives \<^verbatim>\<open>undefined\<close>.
\<close>

fun get_field :: "jsval \<Rightarrow> string \<Rightarrow> jsval" where
  "get_field (JObj kvs) k = (case map_of (rev kvs) k of Some v \<Rightarrow> v | None \<Rightarrow> JUndefined)"
| "get_field _ k = JUndefined"

text \<open>
  \<^verbatim>\<open>xs.slice(0, end)\<close> for a number \<^verbatim>\<open>end\<close>. The end is first made an integer: NaN
  counts as 0, a fraction is cut towards zero. A negative end counts from the back of the
  array, and the result never reaches past either end of it.
\<close>

definition trunc :: "real \<Rightarrow> int" where
  "trunc r = (if 0 \<le> r then \<lfloor>r\<rfloor> else \<lceil>r\<rceil>)"

fun js_slice0 :: "jsnum \<Rightarrow> 'a list \<Rightarrow> 'a list" where
  "js_slice0 NaN xs = take 0 xs"
| "js_slice0 NegInf xs = take 0 xs"
| "js_slice0 PosInf xs = xs"
| "js_slice0 (Fin r) xs =
     (let k = trunc r
      in if k < 0 then take (nat (max (int (length xs) + k) 0)) xs
         else take (nat (min k (int (length xs)))) xs)"

text \<open>
  \<^verbatim>\<open>xs.sort(cmp)\<close>. The language fixes the result for a comparator that is consistent:
  \<^verbatim>\<open>b\<close> goes before \<^verbatim>\<open>a\<close> when \<^verbatim>\<open>cmp(a, b) > 0\<close>, and elements that the
  comparator does not separate (a result of zero or NaN) keep the order they had. Inserting
  the elements one by one from the back computes exactly that order.
\<close>

fun js_insert :: "('a \<Rightarrow> 'a \<Rightarrow> jsnum) \<Rightarrow> 'a \<Rightarrow> 'a list \<Rightarrow> 'a list" where
  "js_insert cmp x [] = [x]"
| "js_insert cmp x (y # ys) =
     (if js_gt (cmp x y) (Fin 0) then y # js_insert cmp x ys else x # y # ys)"

fun js_sort :: "('a \<Rightarrow> 'a \<Rightarrow> jsnum) \<Rightarrow> 'a list \<Rightarrow> 'a list" where
  "js_sort cmp [] = []"
| "js_sort cmp (x # xs) = js_insert cmp x (js_sort cmp xs)"


section \<open>The store\<close>

text \<open>
  The tables behind the object-relational mapper, each the list of its rows in the order
  the database returns them. The schema is not part of the sources; the columns are the ones
  the routes and the seed script read and write.

  A stored date is the instant it denotes together with the text \<^verbatim>\<open>toISOString()\<close>
  prints for it. The store only holds valid dates, so \<^verbatim>\<open>new Date(d)\<close> on a stored
  date is that date again.
\<close>

record datetime =
  epochMs :: int
  isoString :: string

record userCredentials =
  cred_userId :: string
  password :: string

text \<open>
  \<open>skills\<close> and \<open>requiredSkills\<close> are JSON columns: \<open>Some xs\<close> when the column holds
  an array, \<open>None\<close> for any other JSON value.
\<close>

record userProfile =
  userId :: string
  fullName :: string
  address1 :: string
  city :: string
  state :: string
  zipCode :: string
  skills :: "string list option"
  preferences :: "string option"
  availability :: "string list"
  createdAt :: int

record eventDetails =
  ev_id :: string
  eventName :: string
  description :: string
  location :: string
  requiredSkills :: "string list option"
  urgency :: string
  eventDate :: datetime

record assignment =
  as_id :: nat
  as_volunteerId :: string
  as_eventId :: string
  as_createdAtMs :: "int option"

record notice =
  nt_id :: nat
  nt_volunteerId :: string
  nt_title :: string
  nt_body :: string
  nt_type :: string
  nt_createdAtMs :: "int option"

record stateRow =
  stateCode :: string
  stateName :: string

text \<open>The payload of a notice on the bus, and one publish: the channel and the payload.\<close>

record noticeDTO =
  n_id :: nat
  n_volunteerId :: string
  n_title :: string
  n_body :: string
  n_type :: string
  n_createdAtMs :: jsnum

text \<open>
  Everything a request or the seed script can touch: the tables, what was published on the
  bus, and the part of the database that is not data:
  \<^item> \<open>clock\<close>, the time the database puts into \<open>createdAt\<close> of a new row;
  \<^item> \<open>msDefault\<close>, what it puts into \<open>createdAtMs\<close> of a new row (the routes read
    the column with \<^verbatim>\<open>?? 0n\<close>, so it may be NULL);
  \<^item> \<open>nextId\<close>, the next generated row id;
  \<^item> \<open>pending\<close>, how the database will treat the calls to come, one entry per call:
    \<open>True\<close> when it rejects the call. Calls beyond the end of the list are answered.
\<close>

record world =
  userCredentialsT :: "userCredentials list"
  userProfileT :: "userProfile list"
  eventDetailsT :: "eventDetails list"
  assignmentT :: "assignment list"
  noticeT :: "notice list"
  statesT :: "stateRow list"
  published :: "(string \<times> noticeDTO) list"
  clock :: int
  msDefault :: "int option"
  nextId :: nat
  pending :: "bool list"

datatype exn = StoreFailure | ValidationError

text \<open>Every call to the store takes the next entry of \<open>pending\<close>.\<close>

definition answer :: "world \<Rightarrow> bool \<times> world" where
  "answer w = (case pending w of [] \<Rightarrow> (False, w) | f # fs \<Rightarrow> (f, w\<lparr>pending := fs\<rparr>))"

text \<open>
  \<^verbatim>\<open>prisma.userProfile.findUnique({ where: { userId: k } })\<close>. The key column is a
  string; the mapper refuses any other kind of value before it asks the database.
\<close>

definition findUnique_userProfile ::
    "jsval \<Rightarrow> world \<Rightarrow> (exn + userProfile option) \<times> world" where
  "findUnique_userProfile k w =
     (case k of
        JStr s \<Rightarrow>
          (let (bad, w') = answer w
           in if bad then (Inl StoreFailure, w')
              else (Inr (find (\<lambda>p. userId p = s) (userProfileT w')), w'))
      | _ \<Rightarrow> (Inl ValidationError, w))"

text \<open>\<^verbatim>\<open>prisma.eventDetails.findUnique({ where: { id: k } })\<close>.\<close>

definition findUnique_eventDetails ::
    "jsval \<Rightarrow> world \<Rightarrow> (exn + eventDetails option) \<times> world" where
  "findUnique_eventDetails k w =
     (case k of
        JStr s \<Rightarrow>
          (let (bad, w') = answer w
           in if bad then (Inl StoreFailure, w')
              else (Inr (find (\<lambda>e. ev_id e = s) (eventDetailsT w')), w'))
      | _ \<Rightarrow> (Inl ValidationError, w))"

text \<open>\<^verbatim>\<open>prisma.eventDetails.findMany()\<close>, with and without \<^verbatim>\<open>orderBy\<close>.\<close>

definition findMany_eventDetails :: "world \<Rightarrow> (exn + eventDetails list) \<times> world" where
  "findMany_eventDetails w =
     (let (bad, w') = answer w
      in if bad then (Inl StoreFailure, w') else (Inr (eventDetailsT w'), w'))"

definition findMany_eventDetails_by_date :: "world \<Rightarrow> (exn + eventDetails list) \<times> world" where
  "findMany_eventDetails_by_date w =
     (let (bad, w') = answer w
      in if bad then (Inl StoreFailure, w')
         else (Inr (sort_key (\<lambda>e. epochMs (eventDate e)) (eventDetailsT w')), w'))"

text \<open>\<^verbatim>\<open>prisma.userProfile.findMany({ orderBy: { createdAt: "desc" } })\<close>.\<close>

definition findMany_userProfile_newest :: "world \<Rightarrow> (exn + userProfile list) \<times> world" where
  "findMany_userProfile_newest w =
     (let (bad, w') = answer w
      in if bad then (Inl StoreFailure, w')
         else (Inr (sort_key (\<lambda>p. - createdAt p) (userProfileT w')), w'))"

text \<open>
  \<^verbatim>\<open>prisma.assignment.create({ data: { volunteerId, eventId } })\<close>: one new row, its id
  and its \<open>createdAtMs\<close> filled in by the database. The created row is returned.
\<close>

definition create_assignment :: "string \<Rightarrow> string \<Rightarrow> world \<Rightarrow> (exn + assignment) \<times> world" where
  "create_assignment vid eid w =
     (let (bad, w') = answer w
      in if bad then (Inl StoreFailure, w')
         else (let a = \<lparr>as_id = nextId w', as_volunteerId = vid, as_eventId = eid,
                         as_createdAtMs = msDefault w'\<rparr>
               in (Inr a, w'\<lparr>assignmentT := assignmentT w' @ [a], nextId := Suc (nextId w')\<rparr>)))"

text \<open>\<^verbatim>\<open>prisma.notice.create({ data: { volunteerId, title, body, type } })\<close>.\<close>

definition create_notice ::
    "string \<Rightarrow> string \<Rightarrow> string \<Rightarrow> string \<Rightarrow> world \<Rightarrow> (exn + notice) \<times> world" where
  "create_notice vid title body ty w =
     (let (bad, w') = answer w
      in if bad then (Inl StoreFailure, w')
         else (let n = \<lparr>nt_id = nextId w', nt_volunteerId = vid, nt_title = title,
                         nt_body = body, nt_type = ty, nt_createdAtMs = msDefault w'\<rparr>
               in (Inr n, w'\<lparr>noticeT := noticeT w' @ [n], nextId := Suc (nextId w')\<rparr>)))"

text \<open>
  \<^verbatim>\<open>bus.emit(channel, payload)\<close>: the publish is recorded. The subscribers are not part of
  the sources.
\<close>

definition bus_emit :: "string \<Rightarrow> noticeDTO \<Rightarrow> world \<Rightarrow> world" where
  "bus_emit channel payload w = w\<lparr>published := published w @ [(channel, payload)]\<rparr>"


section \<open>The matching routes\<close>

record volunteerDTO =
  v_id :: string
  v_name :: string
  v_location :: string
  v_skills :: "string list"

record eventDTO =
  e_id :: string
  e_name :: string
  e_location :: string
  e_requiredSkills :: "string list"
  e_date :: string
  e_urgency :: string

record ranked =
  rk_event :: eventDTO
  rk_score :: jsnum

record assignmentDTO =
  a_id :: nat
  a_volunteerId :: string
  a_eventId :: string
  a_createdAtMs :: jsnum

text \<open>The JSON bodies the routes send, and what becomes of a request.\<close>

datatype body =
    Volunteers "volunteerDTO list"
  | Events "eventDTO list"
  | Ranked "ranked list"
  | Assigned assignmentDTO
  | OkTrue
  | Error string

datatype outcome = Responded nat body | Unhandled exn

definition toVolunteerDTO :: "userProfile \<Rightarrow> volunteerDTO" where
  "toVolunteerDTO p =
     \<lparr>v_id = userId p, v_name = fullName p, v_location = city p,
      v_skills = (case skills p of Some xs \<Rightarrow> xs | None \<Rightarrow> [])\<rparr>"

definition toEventDTO :: "eventDetails \<Rightarrow> eventDTO" where
  "toEventDTO e =
     \<lparr>e_id = ev_id e, e_name = eventName e, e_location = location e,
      e_requiredSkills = (case requiredSkills e of Some xs \<Rightarrow> xs | None \<Rightarrow> []),
      e_date = take 10 (isoString (eventDate e)),
      e_urgency = urgency e\<rparr>"

text \<open>\<^verbatim>\<open>Number(x ?? 0n)\<close> on a nullable big integer column.\<close>

definition num_of_bigint :: "int option \<Rightarrow> jsnum" where
  "num_of_bigint x = Fin (real_of_int (case x of None \<Rightarrow> 0 | Some b \<Rightarrow> b))"

subsection \<open>GET /volunteers, GET /events, GET /health\<close>

definition listVolunteers :: "world \<Rightarrow> outcome \<times> world" where
  "listVolunteers w =
     (case findMany_userProfile_newest w of
        (Inr rows, w') \<Rightarrow> (Responded 200 (Volunteers (map toVolunteerDTO rows)), w')
      | (Inl _, w') \<Rightarrow> (Responded 500 (Error ''list_volunteers_failed''), w'))"

definition listEvents :: "world \<Rightarrow> outcome \<times> world" where
  "listEvents w =
     (case findMany_eventDetails_by_date w of
        (Inr rows, w') \<Rightarrow> (Responded 200 (Events (map toEventDTO rows)), w')
      | (Inl _, w') \<Rightarrow> (Responded 500 (Error ''list_events_failed''), w'))"

definition health :: "world \<Rightarrow> outcome \<times> world" where
  "health w = (Responded 200 OkTrue, w)"

subsection \<open>GET /volunteer/:id\<close>

text \<open>
  The scoring function is imported from a module that is not part of the sources, so the
  route takes it as the parameter \<open>score\<close>. \<open>toNumber\<close> is the built-in \<^verbatim>\<open>Number\<close>
  on the text of a query parameter.

  \<open>ranking\<close> is the chain \<^verbatim>\<open>events.map(...).filter(...).sort(...)\<close>, before the slice.
\<close>

definition score_pairs ::
    "(volunteerDTO \<Rightarrow> eventDTO \<Rightarrow> jsnum) \<Rightarrow> volunteerDTO \<Rightarrow> eventDetails list \<Rightarrow> ranked list" where
  "score_pairs score vDTO events =
     map (\<lambda>e. let eDTO = toEventDTO e in \<lparr>rk_event = eDTO, rk_score = score vDTO eDTO\<rparr>) events"

definition by_score :: "ranked \<Rightarrow> ranked \<Rightarrow> jsnum" where
  "by_score a b = js_sub (rk_score b) (rk_score a)"

definition ranking ::
    "(volunteerDTO \<Rightarrow> eventDTO \<Rightarrow> jsnum) \<Rightarrow> volunteerDTO \<Rightarrow> eventDetails list \<Rightarrow> ranked list" where
  "ranking score vDTO events =
     js_sort by_score (filter (\<lambda>x. js_gt (rk_score x) (Fin 0)) (score_pairs score vDTO events))"

text \<open>The body of the \<^verbatim>\<open>try\<close> block: \<open>Inl\<close> is a thrown exception.\<close>

definition rank_try ::
    "(volunteerDTO \<Rightarrow> eventDTO \<Rightarrow> jsnum) \<Rightarrow> jsnum \<Rightarrow> string \<Rightarrow> world
       \<Rightarrow> (exn + nat \<times> body) \<times> world" where
  "rank_try score topN ident w =
     (case findUnique_userProfile (JStr ident) w of
        (Inl x, w1) \<Rightarrow> (Inl x, w1)
      | (Inr None, w1) \<Rightarrow> (Inr (404, Error ''volunteer not found''), w1)
      | (Inr (Some v), w1) \<Rightarrow>
          (let vDTO = toVolunteerDTO v
           in case findMany_eventDetails w1 of
                (Inl x, w2) \<Rightarrow> (Inl x, w2)
              | (Inr events, w2) \<Rightarrow>
                  (Inr (200, Ranked (js_slice0 topN (ranking score vDTO events))), w2)))"

text \<open>
  The route: \<open>ident\<close> is the path parameter, \<open>q\<close> the query parameter \<open>topN\<close> when
  the request has one.
\<close>

definition rankForVolunteer ::
    "(volunteerDTO \<Rightarrow> eventDTO \<Rightarrow> jsnum) \<Rightarrow> (string \<Rightarrow> jsnum) \<Rightarrow> string \<Rightarrow> string option
       \<Rightarrow> world \<Rightarrow> outcome \<times> world" where
  "rankForVolunteer score toNumber ident q w =
     (let topN = (case q of None \<Rightarrow> Fin 9999 | Some raw \<Rightarrow> toNumber raw)
      in case rank_try score topN ident w of
           (Inr (st, b), w') \<Rightarrow> (Responded st b, w')
         | (Inl _, w') \<Rightarrow> (Responded 500 (Error ''rank_failed''), w'))"

subsection \<open>POST /assign\<close>

text \<open>
  The two lookups of \<^verbatim>\<open>Promise.all\<close> are both started; the block throws when either is
  rejected. The mapper takes only strings for the two columns of a new assignment, as it
  does in the lookups.
\<close>

definition bullet :: string where
  "bullet = [CHR 0xE2, CHR 0x80, CHR 0xA2]"

definition assign_try :: "jsval \<Rightarrow> jsval \<Rightarrow> world \<Rightarrow> (exn + nat \<times> body) \<times> world" where
  "assign_try volunteerId eventId w =
     (let (rv, w1) = findUnique_userProfile volunteerId w;
          (re, w2) = findUnique_eventDetails eventId w1
      in case (rv, re) of
           (Inl x, _) \<Rightarrow> (Inl x, w2)
         | (_, Inl x) \<Rightarrow> (Inl x, w2)
         | (Inr None, _) \<Rightarrow> (Inr (404, Error ''not found''), w2)
         | (_, Inr None) \<Rightarrow> (Inr (404, Error ''not found''), w2)
         | (Inr (Some v), Inr (Some e)) \<Rightarrow>
             (case (volunteerId, eventId) of
                (JStr vid, JStr eid) \<Rightarrow>
                  (case create_assignment vid eid w2 of
                     (Inl x, w3) \<Rightarrow> (Inl x, w3)
                   | (Inr a, w3) \<Rightarrow>
                       (let title = ''Assigned: '' @ eventName e;
                            body = location e @ '' '' @ bullet @ '' '' @ isoString (eventDate e)
                        in case create_notice vid title body ''success'' w3 of
                             (Inl x, w4) \<Rightarrow> (Inl x, w4)
                           | (Inr n, w4) \<Rightarrow>
                               (let w5 = bus_emit (''notice:'' @ vid)
                                           \<lparr>n_id = nt_id n, n_volunteerId = nt_volunteerId n,
                                            n_title = nt_title n, n_body = nt_body n,
                                            n_type = nt_type n,
                                            n_createdAtMs = num_of_bigint (nt_createdAtMs n)\<rparr> w4
                                in (Inr (200, Assigned
                                           \<lparr>a_id = as_id a, a_volunteerId = vid, a_eventId = eid,
                                            a_createdAtMs = num_of_bigint (as_createdAtMs a)\<rparr>),
                                    w5))))
              | _ \<Rightarrow> (Inl ValidationError, w2)))"

text \<open>The route: \<open>reqBody\<close> is \<^verbatim>\<open>req.body\<close>, \<^verbatim>\<open>undefined\<close> when there is none.\<close>

definition assign :: "jsval \<Rightarrow> world \<Rightarrow> outcome \<times> world" where
  "assign reqBody w =
     (let b = (if truthy reqBody then reqBody else JObj []);
          volunteerId = get_field b ''volunteerId'';
          eventId = get_field b ''eventId''
      in if \<not> truthy volunteerId \<or> \<not> truthy eventId
         then (Responded 400 (Error ''volunteerId and eventId required''), w)
         else case assign_try volunteerId eventId w of
                (Inr (st, bd), w') \<Rightarrow> (Responded st bd, w')
              | (Inl _, w') \<Rightarrow> (Responded 500 (Error ''assign_failed''), w'))"


section \<open>The seed script\<close>

text \<open>
  \<^verbatim>\<open>prisma.T.upsert({ where, update, create })\<close> on the rows of one table: the row the
  \<open>where\<close> selects is updated, and when there is none the \<open>create\<close> row is added.
\<close>

definition upsert_rows :: "('r \<Rightarrow> bool) \<Rightarrow> ('r \<Rightarrow> 'r) \<Rightarrow> 'r \<Rightarrow> 'r list \<Rightarrow> 'r list" where
  "upsert_rows selected update create rows =
     (if list_ex selected rows then map (\<lambda>r. if selected r then update r else r) rows
      else rows @ [create])"

text \<open>
  The demo data is imported from a module that is not part of the sources, so the script
  takes the two arrays as parameters. \<open>de_date\<close> is the date \<^verbatim>\<open>new Date(e.date)\<close> makes
  of the entry's \<open>date\<close>: \<open>None\<close> when that is an Invalid Date, which the mapper refuses.
\<close>

record demoVol =
  dv_id :: string
  dv_name :: string
  dv_location :: string
  dv_skills :: "string list option"

record demoEvent =
  de_id :: string
  de_name :: string
  de_location :: string
  de_requiredSkills :: "string list option"
  de_urgency :: string
  de_date :: "datetime option"

definition usStates :: "(string \<times> string) list" where
  "usStates =
     [
      (''AL'', ''Alabama''), (''AK'', ''Alaska''), (''AZ'', ''Arizona''),
      (''AR'', ''Arkansas''), (''CA'', ''California''), (''CO'', ''Colorado''),
      (''CT'', ''Connecticut''), (''DE'', ''Delaware''), (''FL'', ''Florida''),
      (''GA'', ''Georgia''), (''HI'', ''Hawaii''), (''ID'', ''Idaho''),
      (''IL'', ''Illinois''), (''IN'', ''Indiana''), (''IA'', ''Iowa''),
      (''KS'', ''Kansas''), (''KY'', ''Kentucky''), (''LA'', ''Louisiana''),
      (''ME'', ''Maine''), (''MD'', ''Maryland''), (''MA'', ''Massachusetts''),
      (''MI'', ''Michigan''), (''MN'', ''Minnesota''), (''MS'', ''Mississippi''),
      (''MO'', ''Missouri''), (''MT'', ''Montana''), (''NE'', ''Nebraska''),
      (''NV'', ''Nevada''), (''NH'', ''New Hampshire''), (''NJ'', ''New Jersey''),
      (''NM'', ''New Mexico''), (''NY'', ''New York''), (''NC'', ''North Carolina''),
      (''ND'', ''North Dakota''), (''OH'', ''Ohio''), (''OK'', ''Oklahoma''),
      (''OR'', ''Oregon''), (''PA'', ''Pennsylvania''), (''RI'', ''Rhode Island''),
      (''SC'', ''South Carolina''), (''SD'', ''South Dakota''), (''TN'', ''Tennessee''),
      (''TX'', ''Texas''), (''UT'', ''Utah''), (''VT'', ''Vermont''),
      (''VA'', ''Virginia''), (''WA'', ''Washington''), (''WV'', ''West Virginia''),
      (''WI'', ''Wisconsin''), (''WY'', ''Wyoming'')
     ]"

text \<open>An awaited store call of the script: \<open>Some x\<close> when it throws \<open>x\<close>.\<close>

definition upsert_states :: "string \<times> string \<Rightarrow> world \<Rightarrow> exn option \<times> world" where
  "upsert_states s w =
     (let (bad, w') = answer w
      in if bad then (Some StoreFailure, w')
         else (None, w'\<lparr>statesT :=
                 upsert_rows (\<lambda>r. stateCode r = fst s) (\<lambda>r. r)
                   \<lparr>stateCode = fst s, stateName = snd s\<rparr> (statesT w')\<rparr>))"

definition upsert_userCredentials :: "demoVol \<Rightarrow> world \<Rightarrow> exn option \<times> world" where
  "upsert_userCredentials v w =
     (let (bad, w') = answer w
      in if bad then (Some StoreFailure, w')
         else (None, w'\<lparr>userCredentialsT :=
                 upsert_rows (\<lambda>r. cred_userId r = dv_id v) (\<lambda>r. r)
                   \<lparr>cred_userId = dv_id v, password = ''demo''\<rparr> (userCredentialsT w')\<rparr>))"

definition upsert_userProfile :: "demoVol \<Rightarrow> world \<Rightarrow> exn option \<times> world" where
  "upsert_userProfile v w =
     (let (bad, w') = answer w
      in if bad then (Some StoreFailure, w')
         else (None, w'\<lparr>userProfileT :=
                 upsert_rows (\<lambda>r. userId r = dv_id v)
                   (\<lambda>r. r\<lparr>fullName := dv_name v, address1 := dv_location v,
                          city := dv_location v, state := ''TX'', zipCode := ''00000'',
                          skills := dv_skills v, preferences := None, availability := []\<rparr>)
                   \<lparr>userId = dv_id v, fullName = dv_name v, address1 = dv_location v,
                    city = dv_location v, state = ''TX'', zipCode = ''00000'',
                    skills = dv_skills v, preferences = None, availability = [],
                    createdAt = clock w'\<rparr>
                   (userProfileT w')\<rparr>))"

definition upsert_eventDetails :: "demoEvent \<Rightarrow> world \<Rightarrow> exn option \<times> world" where
  "upsert_eventDetails e w =
     (case de_date e of
        None \<Rightarrow> (Some ValidationError, w)
      | Some d \<Rightarrow>
          (let (bad, w') = answer w
           in if bad then (Some StoreFailure, w')
              else (None, w'\<lparr>eventDetailsT :=
                      upsert_rows (\<lambda>r. ev_id r = de_id e)
                        (\<lambda>r. r\<lparr>eventName := de_name e, description := de_name e,
                               location := de_location e,
                               requiredSkills := de_requiredSkills e,
                               urgency := de_urgency e, eventDate := d\<rparr>)
                        \<lparr>ev_id = de_id e, eventName = de_name e, description = de_name e,
                         location = de_location e, requiredSkills = de_requiredSkills e,
                         urgency = de_urgency e, eventDate = d\<rparr>
                        (eventDetailsT w')\<rparr>)))"

text \<open>
  \<^verbatim>\<open>prisma.$transaction(f)\<close>: when \<open>f\<close> throws, the tables are what they were before,
  and the exception goes on to the caller. The calls \<open>f\<close> made have been made.
\<close>

definition transaction :: "(world \<Rightarrow> exn option \<times> world) \<Rightarrow> world \<Rightarrow> exn option \<times> world" where
  "transaction f w =
     (case f w of
        (None, w') \<Rightarrow> (None, w')
      | (Some x, w') \<Rightarrow> (Some x, w\<lparr>pending := pending w'\<rparr>))"

definition seed_vol :: "demoVol \<Rightarrow> world \<Rightarrow> exn option \<times> world" where
  "seed_vol v w =
     (case upsert_userCredentials v w of
        (Some x, w1) \<Rightarrow> (Some x, w1)
      | (None, w1) \<Rightarrow> upsert_userProfile v w1)"

text \<open>The three \<^verbatim>\<open>for\<close> loops: each stops at the first call that throws.\<close>

fun seed_vols :: "demoVol list \<Rightarrow> world \<Rightarrow> exn option \<times> world" where
  "seed_vols [] w = (None, w)"
| "seed_vols (v # vs) w =
     (case transaction (seed_vol v) w of
        (Some x, w') \<Rightarrow> (Some x, w')
      | (None, w') \<Rightarrow> seed_vols vs w')"

fun seed_events :: "demoEvent list \<Rightarrow> world \<Rightarrow> exn option \<times> world" where
  "seed_events [] w = (None, w)"
| "seed_events (e # es) w =
     (case upsert_eventDetails e w of
        (Some x, w') \<Rightarrow> (Some x, w')
      | (None, w') \<Rightarrow> seed_events es w')"

fun seed_states :: "(string \<times> string) list \<Rightarrow> world \<Rightarrow> exn option \<times> world" where
  "seed_states [] w = (None, w)"
| "seed_states (s # ss) w =
     (case upsert_states s w of
        (Some x, w') \<Rightarrow> (Some x, w')
      | (None, w') \<Rightarrow> seed_states ss w')"

definition seedStates :: "world \<Rightarrow> exn option \<times> world" where
  "seedStates w = seed_states usStates w"

definition seedDemo :: "demoVol list \<Rightarrow> demoEvent list \<Rightarrow> world \<Rightarrow> exn option \<times> world" where
  "seedDemo demoVols demoEvents w =
     (case seed_vols demoVols w of
        (Some x, w') \<Rightarrow> (Some x, w')
      | (None, w') \<Rightarrow> seed_events demoEvents w')"

text \<open>
  \<^verbatim>\<open>main\<close>: the exit status of the script (1 from the \<^verbatim>\<open>catch\<close>, 0 otherwise) and the
  world it leaves.
\<close>

definition main :: "demoVol list \<Rightarrow> demoEvent list \<Rightarrow> world \<Rightarrow> nat \<times> world" where
  "main demoVols demoEvents w =
     (case seedStates w of
        (Some x, w1) \<Rightarrow> (1, w1)
      | (None, w1) \<Rightarrow>
          (case seedDemo demoVols demoEvents w1 of
             (Some x, w2) \<Rightarrow> (1, w2)
           | (None, w2) \<Rightarrow> (0, w2)))"


section \<open>The event form\<close>

text \<open>
  The text of a form field is a JavaScript string, a sequence of UTF-16 code units, and
  \<^verbatim>\<open>length\<close> counts code units. \<^verbatim>\<open>trim()\<close> removes white space and line
  terminators from both ends.
\<close>

type_synonym ustring = "nat list"

definition is_ws :: "nat \<Rightarrow> bool" where
  "is_ws c =
     (c \<in> {0x9, 0xA, 0xB, 0xC, 0xD, 0x20, 0xA0, 0x1680, 0x2028, 0x2029, 0x202F, 0x205F,
           0x3000, 0xFEFF}
      \<or> (0x2000 \<le> c \<and> c \<le> 0x200A))"

definition trim :: "ustring \<Rightarrow> ustring" where
  "trim s = rev (dropWhile is_ws (rev (dropWhile is_ws s)))"

record form =
  f_name :: ustring
  f_description :: ustring
  f_location :: ustring
  f_requiredSkills :: "ustring list"
  f_urgency :: ustring
  f_eventDate :: ustring

text \<open>
  \<open>validate\<close> gives the message to show, or \<open>None\<close> for \<^verbatim>\<open>null\<close>. The sign in the
  second message is written as its three bytes.
\<close>

definition validate :: "form \<Rightarrow> string option" where
  "validate f =
     (if trim (f_name f) = [] then Some ''Event Name is required.''
      else if length (trim (f_name f)) > 100
        then Some (''Event Name must be '' @ [CHR 0xE2, CHR 0x89, CHR 0xA4] @ '' 100 characters.'')
      else if trim (f_description f) = [] then Some ''Event Description is required.''
      else if trim (f_location f) = [] then Some ''Location is required.''
      else if length (f_requiredSkills f) = 0 then Some ''Select at least one Required Skill.''
      else if f_urgency f = [] then Some ''Urgency is required.''
      else if f_eventDate f = [] then Some ''Event Date is required.''
      else None)"

text \<open>
  \<open>handleSave\<close>, as far as it decides what to do: show a message, or send a request
  (none when an edit has no selected event).
\<close>

datatype mode = CreateMode | EditMode

datatype request = POST form | PUT ustring form

definition payload :: "form \<Rightarrow> form" where
  "payload f =
     f\<lparr>f_name := trim (f_name f), f_description := trim (f_description f),
       f_location := trim (f_location f)\<rparr>"

definition handleSave :: "mode \<Rightarrow> ustring option \<Rightarrow> form \<Rightarrow> string + request option" where
  "handleSave m selectedId f =
     (case validate f of
        Some v \<Rightarrow> Inl v
      | None \<Rightarrow>
          (if m = CreateMode then Inr (Some (POST (payload f)))
           else (case selectedId of
                   Some i \<Rightarrow> if i \<noteq> [] then Inr (Some (PUT i (payload f))) else Inr None
                 | None \<Rightarrow> Inr None)))"


section \<open>Sample data\<close>

text \<open>
  A small store, a scoring function and a reading of \<^verbatim>\<open>Number\<close> on three texts, for
  evaluating the routes on concrete requests. The scores are the ones of the
  specification's example: 5, 9 and 1.
\<close>

definition js :: "string \<Rightarrow> ustring" where
  "js s = map of_char s"

definition sample_date :: datetime where
  "sample_date = \<lparr>epochMs = 1767225600000, isoString = ''2026-01-01T00:00:00.000Z''\<rparr>"

definition sample_profile :: userProfile where
  "sample_profile =
     \<lparr>userId = ''v1'', fullName = ''Ada'', address1 = ''Houston'', city = ''Houston'',
      state = ''TX'', zipCode = ''00000'', skills = Some [''Teamwork''], preferences = None,
      availability = [], createdAt = 0\<rparr>"

definition sample_event :: "string \<Rightarrow> eventDetails" where
  "sample_event i =
     \<lparr>ev_id = i, eventName = ''Food drive'', description = ''Food drive'',
      location = ''Houston'', requiredSkills = Some [''Teamwork''], urgency = ''High'',
      eventDate = sample_date\<rparr>"

definition empty_world :: world where
  "empty_world =
     \<lparr>userCredentialsT = [], userProfileT = [], eventDetailsT = [], assignmentT = [],
      noticeT = [], statesT = [], published = [], clock = 0, msDefault = Some 1700000000000,
      nextId = 1, pending = []\<rparr>"

definition sample_world :: world where
  "sample_world =
     empty_world\<lparr>userProfileT := [sample_profile],
                 eventDetailsT := [sample_event ''e1'', sample_event ''e2'', sample_event ''e3'']\<rparr>"

definition sample_score :: "volunteerDTO \<Rightarrow> eventDTO \<Rightarrow> jsnum" where
  "sample_score v e =
     (if e_id e = ''e1'' then Fin 5 else if e_id e = ''e2'' then Fin 9 else Fin 1)"

definition sample_Number :: "string \<Rightarrow> jsnum" where
  "sample_Number raw =
     (if raw = ''2'' then Fin 2 else if raw = ''-1'' then Fin (- 1) else NaN)"

text \<open>The same store with one more profile, whose user id is the empty string.\<close>

definition blank_id_world :: world where
  "blank_id_world = sample_world\<lparr>userProfileT := [sample_profile, sample_profile\<lparr>userId := []\<rparr>]\<rparr>"

text \<open>A scoring function under which every event matches, with score 1.\<close>

definition unit_score :: "volunteerDTO \<Rightarrow> eventDTO \<Rightarrow> jsnum" where
  "unit_score v e = Fin 1"

text \<open>A store with \<open>n\<close> events, told apart by the length of their ids.\<close>

definition many_events :: "nat \<Rightarrow> eventDetails list" where
  "many_events n = map (\<lambda>i. sample_event (replicate (Suc i) (CHR ''e''))) [0..<n]"

definition crowded_world :: world where
  "crowded_world = empty_world\<lparr>userProfileT := [sample_profile], eventDetailsT := many_events 10000\<rparr>"

definition sample_form :: form where
  "sample_form =
     \<lparr>f_name = js ''Food drive'', f_description = js ''Sorting cans'',
      f_location = js ''Houston'', f_requiredSkills = [js ''Teamwork''],
      f_urgency = js ''Low'', f_eventDate = js ''2026-01-01''\<rparr>"

definition sample_vols :: "demoVol list" where
  "sample_vols =
     [\<lparr>dv_id = ''v1'', dv_name = ''Ada'', dv_location = ''Houston'', dv_skills = Some [''Teamwork'']\<rparr>,
      \<lparr>dv_id = ''v2'', dv_name = ''Ben'', dv_location = ''Austin'', dv_skills = Some [''Lifting'']\<rparr>]"

definition sample_events :: "demoEvent list" where
  "sample_events =
     [\<lparr>de_id = ''e1'', de_name = ''Food drive'', de_location = ''Houston'',
       de_requiredSkills = Some [''Teamwork''], de_urgency = ''High'',
       de_date = Some sample_date\<rparr>]"


section \<open>What a request may change\<close>

text \<open>
  \<open>kept w w'\<close>: from \<open>w\<close> to \<open>w'\<close> the profiles and the events are the same rows,
  and the assignments and notices have at most gained rows at the end.
\<close>

definition kept :: "world \<Rightarrow> world \<Rightarrow> bool" where
  "kept w w' =
     (userProfileT w' = userProfileT w \<and> eventDetailsT w' = eventDetailsT w
      \<and> (\<exists>new. assignmentT w' = assignmentT w @ new)
      \<and> (\<exists>new. noticeT w' = noticeT w @ new))"


section \<open>Sequences of upserts\<close>

text \<open>
  The notions used to reason about the seed script. An upsert on a table with key column
  \<open>key\<close> is given by the key it selects, the update of the row found and the row created
  otherwise. \<open>run_upserts\<close> runs a list of them, first to last.
\<close>

type_synonym ('k, 'r) upsert = "'k \<times> ('r \<Rightarrow> 'r) \<times> 'r"

definition apply_upsert :: "('r \<Rightarrow> 'k) \<Rightarrow> ('k, 'r) upsert \<Rightarrow> 'r list \<Rightarrow> 'r list" where
  "apply_upsert key u rows =
     upsert_rows (\<lambda>r. key r = fst u) (fst (snd u)) (snd (snd u)) rows"

definition run_upserts :: "('r \<Rightarrow> 'k) \<Rightarrow> ('k, 'r) upsert list \<Rightarrow> 'r list \<Rightarrow> 'r list" where
  "run_upserts key us rows = fold (apply_upsert key) us rows"

text \<open>What an upsert does to a row that is already there, and what a list of them does.\<close>

definition touch :: "('r \<Rightarrow> 'k) \<Rightarrow> 'k \<times> ('r \<Rightarrow> 'r) \<Rightarrow> 'r \<Rightarrow> 'r" where
  "touch key ku r = (if key r = fst ku then snd ku r else r)"

definition settle :: "('r \<Rightarrow> 'k) \<Rightarrow> ('k \<times> ('r \<Rightarrow> 'r)) list \<Rightarrow> 'r \<Rightarrow> 'r" where
  "settle key kus r = fold (touch key) kus r"

definition strip :: "('k, 'r) upsert \<Rightarrow> 'k \<times> ('r \<Rightarrow> 'r)" where
  "strip u = (fst u, fst (snd u))"

text \<open>
  The updates of a list are \<open>steady\<close> when none changes the key of a row and a later one
  overwrites all an earlier one wrote. A list of upserts is \<open>tidy\<close> when, besides, each
  created row has the key selected and already holds what the update would write.
\<close>

definition steady :: "('r \<Rightarrow> 'k) \<Rightarrow> ('k \<times> ('r \<Rightarrow> 'r)) list \<Rightarrow> bool" where
  "steady key kus =
     (list_all (\<lambda>a. \<forall>r. key (snd a r) = key r) kus
      \<and> list_all (\<lambda>a. list_all (\<lambda>b. \<forall>r. snd a (snd b r) = snd a r) kus) kus)"

definition tidy :: "('r \<Rightarrow> 'k) \<Rightarrow> ('k, 'r) upsert list \<Rightarrow> bool" where
  "tidy key us =
     (steady key (map strip us)
      \<and> list_all (\<lambda>u. key (snd (snd u)) = fst u \<and> fst (snd u) (snd (snd u)) = snd (snd u)) us)"

text \<open>The upserts the seed script makes for one entry of the demo data or of the states.\<close>

definition state_upsert :: "string \<times> string \<Rightarrow> (string, stateRow) upsert" where
  "state_upsert s = (fst s, (\<lambda>r. r), \<lparr>stateCode = fst s, stateName = snd s\<rparr>)"

definition cred_upsert :: "demoVol \<Rightarrow> (string, userCredentials) upsert" where
  "cred_upsert v = (dv_id v, (\<lambda>r. r), \<lparr>cred_userId = dv_id v, password = ''demo''\<rparr>)"

definition profile_upsert :: "int \<Rightarrow> demoVol \<Rightarrow> (string, userProfile) upsert" where
  "profile_upsert now v =
     (dv_id v,
      (\<lambda>r. r\<lparr>fullName := dv_name v, address1 := dv_location v,
             city := dv_location v, state := ''TX'', zipCode := ''00000'',
             skills := dv_skills v, preferences := None, availability := []\<rparr>),
      \<lparr>userId = dv_id v, fullName = dv_name v, address1 = dv_location v,
       city = dv_location v, state = ''TX'', zipCode = ''00000'',
       skills = dv_skills v, preferences = None, availability = [],
       createdAt = now\<rparr>)"

definition event_upsert :: "demoEvent \<Rightarrow> datetime \<Rightarrow> (string, eventDetails) upsert" where
  "event_upsert e d =
     (de_id e,
      (\<lambda>r. r\<lparr>eventName := de_name e, description := de_name e,
             location := de_location e,
             requiredSkills := de_requiredSkills e,
             urgency := de_urgency e, eventDate := d\<rparr>),
      \<lparr>ev_id = de_id e, eventName = de_name e, description = de_name e,
       location = de_location e, requiredSkills = de_requiredSkills e,
       urgency = de_urgency e, eventDate = d\<rparr>)"

text \<open>
  The event upserts made before the loop meets an entry with an Invalid Date, and whether
  it meets one.
\<close>

fun event_upserts :: "demoEvent list \<Rightarrow> (string, eventDetails) upsert list" where
  "event_upserts [] = []"
| "event_upserts (e # es) =
     (case de_date e of None \<Rightarrow> [] | Some d \<Rightarrow> event_upsert e d # event_upserts es)"

fun bad_date :: "demoEvent list \<Rightarrow> bool" where
  "bad_date [] = False"
| "bad_date (e # es) = (case de_date e of None \<Rightarrow> True | Some d \<Rightarrow> bad_date es)"


section \<open>Calls to the store\<close>

lemma answer_eq:
  "answer w = (pending w \<noteq> [] \<and> hd (pending w), w\<lparr>pending := tl (pending w)\<rparr>)"
  by (cases "pending w") (simp_all add: answer_def)

lemma answer_quiet: "pending w = [] \<Longrightarrow> answer w = (False, w)"
  by (simp add: answer_def)

lemma get_field_body: "get_field (if truthy r then r else JObj []) k = get_field r k"
  by (cases r) simp_all

lemma kept_refl: "kept w w"
  by (simp add: kept_def)

lemma kept_trans: "kept w w1 \<Longrightarrow> kept w1 w2 \<Longrightarrow> kept w w2"
  by (auto simp add: kept_def)

lemma kept_findUnique_userProfile: "kept w (snd (findUnique_userProfile k w))"
  by (cases k) (simp_all add: findUnique_userProfile_def answer_eq kept_def)

lemma kept_findUnique_eventDetails: "kept w (snd (findUnique_eventDetails k w))"
  by (cases k) (simp_all add: findUnique_eventDetails_def answer_eq kept_def)

lemma kept_findMany_eventDetails: "kept w (snd (findMany_eventDetails w))"
  by (simp add: findMany_eventDetails_def answer_eq kept_def)

lemma kept_findMany_eventDetails_by_date: "kept w (snd (findMany_eventDetails_by_date w))"
  by (simp add: findMany_eventDetails_by_date_def answer_eq kept_def)

lemma kept_findMany_userProfile_newest: "kept w (snd (findMany_userProfile_newest w))"
  by (simp add: findMany_userProfile_newest_def answer_eq kept_def)

lemma kept_create_assignment: "kept w (snd (create_assignment vid eid w))"
  by (simp add: create_assignment_def answer_eq kept_def Let_def)

lemma kept_create_notice: "kept w (snd (create_notice vid t b ty w))"
  by (simp add: create_notice_def answer_eq kept_def Let_def)

lemma create_assignmentD: "create_assignment vid eid w = (r, w') \<Longrightarrow> kept w w'"
  using kept_create_assignment [of w vid eid] by simp

lemma create_noticeD: "create_notice vid t b ty w = (r, w') \<Longrightarrow> kept w w'"
  using kept_create_notice [of w vid t b ty] by simp

lemma kept_listVolunteers: "kept w (snd (listVolunteers w))"
  using kept_findMany_userProfile_newest [of w]
  by (cases "findMany_userProfile_newest w") (simp add: listVolunteers_def split: sum.splits)

lemma kept_listEvents: "kept w (snd (listEvents w))"
  using kept_findMany_eventDetails_by_date [of w]
  by (cases "findMany_eventDetails_by_date w") (simp add: listEvents_def split: sum.splits)

lemma kept_rank_try: "kept w (snd (rank_try score topN ident w))"
proof -
  obtain r w1 where a: "findUnique_userProfile (JStr ident) w = (r, w1)"
    by (cases "findUnique_userProfile (JStr ident) w")
  obtain r2 w2 where b: "findMany_eventDetails w1 = (r2, w2)"
    by (cases "findMany_eventDetails w1")
  have k1: "kept w w1"
    using kept_findUnique_userProfile [of w "JStr ident"] a by simp
  have k2: "kept w1 w2"
    using kept_findMany_eventDetails [of w1] b by simp
  have k3: "kept w w2"
    using k1 k2 by (rule kept_trans)
  show ?thesis
    using k1 k3 by (simp add: rank_try_def a b Let_def split: sum.splits option.splits)
qed

lemma kept_rankForVolunteer: "kept w (snd (rankForVolunteer score toNumber ident q w))"
proof -
  let ?n = "case q of None \<Rightarrow> Fin 9999 | Some raw \<Rightarrow> toNumber raw"
  obtain r w' where a: "rank_try score ?n ident w = (r, w')"
    by (cases "rank_try score ?n ident w")
  have "kept w w'"
    using kept_rank_try [of w score ?n ident] a by simp
  then show ?thesis
    by (simp add: rankForVolunteer_def Let_def a split: sum.splits)
qed

lemma kept_assign_try: "kept w (snd (assign_try volunteerId eventId w))"
proof -
  obtain rv w1 where a: "findUnique_userProfile volunteerId w = (rv, w1)"
    by (cases "findUnique_userProfile volunteerId w")
  obtain re w2 where b: "findUnique_eventDetails eventId w1 = (re, w2)"
    by (cases "findUnique_eventDetails eventId w1")
  have k1: "kept w w1"
    using kept_findUnique_userProfile [of w volunteerId] a by simp
  have k2: "kept w w2"
    using k1 kept_findUnique_eventDetails [of w1 eventId] b by (auto intro: kept_trans)
  show ?thesis
    using k2
    by (auto simp add: assign_try_def a b Let_def kept_def bus_emit_def
        split: sum.splits option.splits jsval.splits prod.splits
        dest!: create_assignmentD create_noticeD)
qed

lemma kept_assign: "kept w (snd (assign reqBody w))"
proof -
  let ?b = "if truthy reqBody then reqBody else JObj []"
  obtain r w' where
    a: "assign_try (get_field ?b ''volunteerId'') (get_field ?b ''eventId'') w = (r, w')"
    by (cases "assign_try (get_field ?b ''volunteerId'') (get_field ?b ''eventId'') w")
  have "kept w w'"
    using kept_assign_try [of w "get_field ?b ''volunteerId''" "get_field ?b ''eventId''"] a
    by simp
  then show ?thesis
    using kept_refl [of w] by (simp add: assign_def Let_def a split: sum.splits)
qed


section \<open>The routes never write profiles or events\<close>

text \<open>
  Claim C6. No route of the matching API changes a stored volunteer profile or a stored
  event, whatever the request and whether or not the store answers: after
  \<open>listVolunteers\<close>, \<open>listEvents\<close>, \<open>rankForVolunteer\<close>, \<open>health\<close> and \<open>assign\<close>
  the two tables hold the rows they held before. The only rows \<open>assign\<close> writes are new
  rows at the end of the assignments and of the notices.
\<close>

theorem matching_routes_frame:
  "userProfileT (snd (listVolunteers w)) = userProfileT w
   \<and> eventDetailsT (snd (listVolunteers w)) = eventDetailsT w
   \<and> userProfileT (snd (listEvents w)) = userProfileT w
   \<and> eventDetailsT (snd (listEvents w)) = eventDetailsT w
   \<and> userProfileT (snd (rankForVolunteer score toNumber ident q w)) = userProfileT w
   \<and> eventDetailsT (snd (rankForVolunteer score toNumber ident q w)) = eventDetailsT w
   \<and> userProfileT (snd (health w)) = userProfileT w
   \<and> eventDetailsT (snd (health w)) = eventDetailsT w
   \<and> userProfileT (snd (assign reqBody w)) = userProfileT w
   \<and> eventDetailsT (snd (assign reqBody w)) = eventDetailsT w
   \<and> (\<exists>new. assignmentT (snd (assign reqBody w)) = assignmentT w @ new)
   \<and> (\<exists>new. noticeT (snd (assign reqBody w)) = noticeT w @ new)"
  using kept_listVolunteers [of w] kept_listEvents [of w]
    kept_rankForVolunteer [of w score toNumber ident q] kept_assign [of w reqBody]
  by (simp add: kept_def health_def)

theorem matching_routes_frame_witness:
  "userProfileT (snd (listVolunteers sample_world)) = userProfileT sample_world
   \<and> eventDetailsT (snd (listVolunteers sample_world)) = eventDetailsT sample_world
   \<and> userProfileT (snd (listEvents sample_world)) = userProfileT sample_world
   \<and> eventDetailsT (snd (listEvents sample_world)) = eventDetailsT sample_world
   \<and> userProfileT (snd (rankForVolunteer sample_score sample_Number ''v1'' (Some ''2'') sample_world))
       = userProfileT sample_world
   \<and> eventDetailsT (snd (rankForVolunteer sample_score sample_Number ''v1'' (Some ''2'') sample_world))
       = eventDetailsT sample_world
   \<and> userProfileT (snd (health sample_world)) = userProfileT sample_world
   \<and> eventDetailsT (snd (health sample_world)) = eventDetailsT sample_world
   \<and> userProfileT (snd (assign (JObj [(''volunteerId'', JStr ''v1''), (''eventId'', JStr ''e2'')])
         sample_world)) = userProfileT sample_world
   \<and> eventDetailsT (snd (assign (JObj [(''volunteerId'', JStr ''v1''), (''eventId'', JStr ''e2'')])
         sample_world)) = eventDetailsT sample_world
   \<and> (\<exists>new. assignmentT (snd (assign (JObj [(''volunteerId'', JStr ''v1''), (''eventId'', JStr ''e2'')])
         sample_world)) = assignmentT sample_world @ new)
   \<and> (\<exists>new. noticeT (snd (assign (JObj [(''volunteerId'', JStr ''v1''), (''eventId'', JStr ''e2'')])
         sample_world)) = noticeT sample_world @ new)"
  by (rule matching_routes_frame)


section \<open>POST /assign\<close>

text \<open>
  Claim C10. \<open>assign\<close> answers 400 for every falsy value of \<open>volunteerId\<close> or of
  \<open>eventId\<close>, not only when the member is absent from the body: the empty string and
  the number 0 are turned away like \<^verbatim>\<open>undefined\<close>. Nothing is asked of the store and
  nothing is written: the world comes back as it was, with no call to the store used up.
\<close>

theorem assign_falsy_400:
  assumes "\<not> truthy (get_field reqBody ''volunteerId'') \<or> \<not> truthy (get_field reqBody ''eventId'')"
  shows "assign reqBody w = (Responded 400 (Error ''volunteerId and eventId required''), w)"
  using assms by (auto simp add: assign_def Let_def get_field_body)

theorem assign_falsy_400_witness:
  "\<not> truthy (get_field (JObj [(''volunteerId'', JStr []), (''eventId'', JStr ''e1'')]) ''volunteerId'')
   \<and> assign (JObj [(''volunteerId'', JStr []), (''eventId'', JStr ''e1'')]) sample_world
       = (Responded 400 (Error ''volunteerId and eventId required''), sample_world)
   \<and> \<not> truthy (get_field (JObj [(''volunteerId'', JStr ''v1''), (''eventId'', JNum (Fin 0))]) ''eventId'')
   \<and> assign (JObj [(''volunteerId'', JStr ''v1''), (''eventId'', JNum (Fin 0))]) sample_world
       = (Responded 400 (Error ''volunteerId and eventId required''), sample_world)"
proof -
  have a: "\<not> truthy (get_field (JObj [(''volunteerId'', JStr []), (''eventId'', JStr ''e1'')])
                        ''volunteerId'')"
    by simp
  have b: "\<not> truthy (get_field (JObj [(''volunteerId'', JStr ''v1''), (''eventId'', JNum (Fin 0))])
                        ''eventId'')"
    by simp
  from a have "assign (JObj [(''volunteerId'', JStr []), (''eventId'', JStr ''e1'')]) sample_world
       = (Responded 400 (Error ''volunteerId and eventId required''), sample_world)"
    by (intro assign_falsy_400 disjI1)
  moreover from b
  have "assign (JObj [(''volunteerId'', JStr ''v1''), (''eventId'', JNum (Fin 0))]) sample_world
       = (Responded 400 (Error ''volunteerId and eventId required''), sample_world)"
    by (intro assign_falsy_400 disjI2)
  ultimately show ?thesis
    using a b by simp
qed

text \<open>
  Claim C3, as amended. A request whose body lacks \<open>volunteerId\<close> or \<open>eventId\<close>, or
  gives one of them a falsy value such as the empty string, is answered 400, whatever the
  other member is. A request that names both by non-empty strings is answered 404 when
  the store answers the two lookups and has no volunteer of that id or no event of that id
  (an unknown id of the right form included).

  The claim as stated sends every request that has both members on to the lookups. It fails
  on a body whose \<open>volunteerId\<close> is present and is the empty string: the store has no
  such volunteer, and the answer is 400, not 404, \<open>assign_empty_id_400\<close>.
\<close>

theorem assign_400_404:
  "(\<not> truthy (get_field reqBody ''volunteerId'') \<or> \<not> truthy (get_field reqBody ''eventId'')
      \<longrightarrow> assign reqBody w = (Responded 400 (Error ''volunteerId and eventId required''), w))
   \<and> (get_field reqBody ''volunteerId'' = JStr vid \<and> vid \<noteq> []
        \<and> get_field reqBody ''eventId'' = JStr eid \<and> eid \<noteq> []
        \<and> pending w = []
        \<and> (find (\<lambda>p. userId p = vid) (userProfileT w) = None
             \<or> find (\<lambda>e. ev_id e = eid) (eventDetailsT w) = None)
      \<longrightarrow> assign reqBody w = (Responded 404 (Error ''not found''), w))"
proof (intro conjI impI)
  assume "\<not> truthy (get_field reqBody ''volunteerId'') \<or> \<not> truthy (get_field reqBody ''eventId'')"
  then show "assign reqBody w = (Responded 400 (Error ''volunteerId and eventId required''), w)"
    by (auto simp add: assign_def Let_def get_field_body)
next
  assume a: "get_field reqBody ''volunteerId'' = JStr vid \<and> vid \<noteq> []
        \<and> get_field reqBody ''eventId'' = JStr eid \<and> eid \<noteq> []
        \<and> pending w = []
        \<and> (find (\<lambda>p. userId p = vid) (userProfileT w) = None
             \<or> find (\<lambda>e. ev_id e = eid) (eventDetailsT w) = None)"
  then have t: "assign_try (JStr vid) (JStr eid) w = (Inr (404, Error ''not found''), w)"
    by (auto simp add: assign_try_def findUnique_userProfile_def findUnique_eventDetails_def
        answer_quiet split: option.splits)
  show "assign reqBody w = (Responded 404 (Error ''not found''), w)"
    using a by (simp add: assign_def Let_def get_field_body t)
qed

theorem assign_400_404_witness:
  "\<not> truthy (get_field (JObj [(''volunteerId'', JStr ''v1'')]) ''eventId'')
   \<and> assign (JObj [(''volunteerId'', JStr ''v1'')]) sample_world
       = (Responded 400 (Error ''volunteerId and eventId required''), sample_world)
   \<and> get_field (JObj [(''volunteerId'', JStr ''v1''), (''eventId'', JStr ''zz'')]) ''volunteerId''
       = JStr ''v1''
   \<and> get_field (JObj [(''volunteerId'', JStr ''v1''), (''eventId'', JStr ''zz'')]) ''eventId''
       = JStr ''zz''
   \<and> pending sample_world = []
   \<and> find (\<lambda>e. ev_id e = ''zz'') (eventDetailsT sample_world) = None
   \<and> assign (JObj [(''volunteerId'', JStr ''v1''), (''eventId'', JStr ''zz'')]) sample_world
       = (Responded 404 (Error ''not found''), sample_world)"
proof -
  have a: "\<not> truthy (get_field (JObj [(''volunteerId'', JStr ''v1'')]) ''eventId'')"
    by simp
  have b: "get_field (JObj [(''volunteerId'', JStr ''v1''), (''eventId'', JStr ''zz'')]) ''volunteerId''
             = JStr ''v1''"
    by simp
  have c: "get_field (JObj [(''volunteerId'', JStr ''v1''), (''eventId'', JStr ''zz'')]) ''eventId''
             = JStr ''zz''"
    by simp
  have d: "pending sample_world = []"
    by (simp add: sample_world_def empty_world_def)
  have e: "find (\<lambda>e. ev_id e = ''zz'') (eventDetailsT sample_world) = None"
    by (simp add: sample_world_def empty_world_def sample_event_def)
  show ?thesis
    using a b c d e
      assign_400_404 [of "JObj [(''volunteerId'', JStr ''v1'')]" sample_world "''v1''" "''zz''"]
      assign_400_404 [of "JObj [(''volunteerId'', JStr ''v1''), (''eventId'', JStr ''zz'')]"
        sample_world "''v1''" "''zz''"]
    by simp
qed

theorem assign_empty_id_400:
  "get_field (JObj [(''volunteerId'', JStr []), (''eventId'', JStr ''e1'')]) ''volunteerId'' = JStr []
   \<and> get_field (JObj [(''volunteerId'', JStr []), (''eventId'', JStr ''e1'')]) ''eventId'' = JStr ''e1''
   \<and> find (\<lambda>p. userId p = []) (userProfileT sample_world) = None
   \<and> assign (JObj [(''volunteerId'', JStr []), (''eventId'', JStr ''e1'')]) sample_world
       = (Responded 400 (Error ''volunteerId and eventId required''), sample_world)"
  by (simp add: assign_def Let_def sample_world_def empty_world_def sample_profile_def)

text \<open>
  Claim C2, as amended. When the body names a stored volunteer and a stored event by
  non-empty strings and the store answers every call, \<open>assign\<close> adds exactly one row to
  the assignments and exactly one row to the notices, publishes exactly one notice, on the
  channel \<^verbatim>\<open>notice:\<close> followed by the volunteer's id, and answers 200 with the id of the
  new assignment, the two ids of the request and a \<open>createdAtMs\<close> that is a finite
  number. Nothing else in the world changes but the counter of generated ids.

  The claim as stated, for every call with ids present in the store, fails in two ways,
  \<open>assign_fewer_records\<close>. Where the id is the empty string, and the store has a profile
  with that user id, the request is answered 400 and nothing is created. And where the store
  rejects the creation of the notice, the assignment has been created and stays, with no
  notice and no publish, and the answer is 500: the two writes are not one transaction.
\<close>

theorem assign_success:
  assumes "get_field reqBody ''volunteerId'' = JStr vid" and "vid \<noteq> []"
      and "get_field reqBody ''eventId'' = JStr eid" and "eid \<noteq> []"
      and "find (\<lambda>p. userId p = vid) (userProfileT w) = Some v"
      and "find (\<lambda>e. ev_id e = eid) (eventDetailsT w) = Some e"
      and "pending w = []"
  shows "assign reqBody w =
           (Responded 200 (Assigned \<lparr>a_id = nextId w, a_volunteerId = vid, a_eventId = eid,
                                     a_createdAtMs = num_of_bigint (msDefault w)\<rparr>),
            w\<lparr>assignmentT := assignmentT w @
                 [\<lparr>as_id = nextId w, as_volunteerId = vid, as_eventId = eid,
                   as_createdAtMs = msDefault w\<rparr>],
              noticeT := noticeT w @
                 [\<lparr>nt_id = Suc (nextId w), nt_volunteerId = vid,
                   nt_title = ''Assigned: '' @ eventName e,
                   nt_body = location e @ '' '' @ bullet @ '' '' @ isoString (eventDate e),
                   nt_type = ''success'', nt_createdAtMs = msDefault w\<rparr>],
              published := published w @
                 [(''notice:'' @ vid,
                   \<lparr>n_id = Suc (nextId w), n_volunteerId = vid,
                    n_title = ''Assigned: '' @ eventName e,
                    n_body = location e @ '' '' @ bullet @ '' '' @ isoString (eventDate e),
                    n_type = ''success'', n_createdAtMs = num_of_bigint (msDefault w)\<rparr>)],
              nextId := Suc (Suc (nextId w))\<rparr>)
         \<and> (\<exists>ms. num_of_bigint (msDefault w) = Fin ms)"
proof -
  have t: "assign_try (JStr vid) (JStr eid) w =
           (Inr (200, Assigned \<lparr>a_id = nextId w, a_volunteerId = vid, a_eventId = eid,
                                     a_createdAtMs = num_of_bigint (msDefault w)\<rparr>),
            w\<lparr>assignmentT := assignmentT w @
                 [\<lparr>as_id = nextId w, as_volunteerId = vid, as_eventId = eid,
                   as_createdAtMs = msDefault w\<rparr>],
              noticeT := noticeT w @
                 [\<lparr>nt_id = Suc (nextId w), nt_volunteerId = vid,
                   nt_title = ''Assigned: '' @ eventName e,
                   nt_body = location e @ '' '' @ bullet @ '' '' @ isoString (eventDate e),
                   nt_type = ''success'', nt_createdAtMs = msDefault w\<rparr>],
              published := published w @
                 [(''notice:'' @ vid,
                   \<lparr>n_id = Suc (nextId w), n_volunteerId = vid,
                    n_title = ''Assigned: '' @ eventName e,
                    n_body = location e @ '' '' @ bullet @ '' '' @ isoString (eventDate e),
                    n_type = ''success'', n_createdAtMs = num_of_bigint (msDefault w)\<rparr>)],
              nextId := Suc (Suc (nextId w))\<rparr>)"
    using assms
    by (simp add: assign_try_def findUnique_userProfile_def findUnique_eventDetails_def
        create_assignment_def create_notice_def bus_emit_def answer_quiet answer_def Let_def)
  show ?thesis
    using assms by (simp add: assign_def Let_def get_field_body t num_of_bigint_def)
qed

theorem assign_success_witness:
  "get_field (JObj [(''volunteerId'', JStr ''v1''), (''eventId'', JStr ''e2'')]) ''volunteerId''
     = JStr ''v1''
   \<and> get_field (JObj [(''volunteerId'', JStr ''v1''), (''eventId'', JStr ''e2'')]) ''eventId''
       = JStr ''e2''
   \<and> find (\<lambda>p. userId p = ''v1'') (userProfileT sample_world) = Some sample_profile
   \<and> find (\<lambda>e. ev_id e = ''e2'') (eventDetailsT sample_world) = Some (sample_event ''e2'')
   \<and> pending sample_world = []
   \<and> fst (assign (JObj [(''volunteerId'', JStr ''v1''), (''eventId'', JStr ''e2'')]) sample_world)
       = Responded 200 (Assigned \<lparr>a_id = 1, a_volunteerId = ''v1'', a_eventId = ''e2'',
                                   a_createdAtMs = Fin 1700000000000\<rparr>)
   \<and> length (assignmentT (snd (assign (JObj [(''volunteerId'', JStr ''v1''), (''eventId'', JStr ''e2'')])
                                   sample_world))) = 1
   \<and> length (noticeT (snd (assign (JObj [(''volunteerId'', JStr ''v1''), (''eventId'', JStr ''e2'')])
                                   sample_world))) = 1
   \<and> map fst (published (snd (assign (JObj [(''volunteerId'', JStr ''v1''), (''eventId'', JStr ''e2'')])
                                   sample_world))) = [''notice:v1'']"
proof -
  have a: "get_field (JObj [(''volunteerId'', JStr ''v1''), (''eventId'', JStr ''e2'')]) ''volunteerId''
             = JStr ''v1''"
    by simp
  have b: "get_field (JObj [(''volunteerId'', JStr ''v1''), (''eventId'', JStr ''e2'')]) ''eventId''
             = JStr ''e2''"
    by simp
  have c: "find (\<lambda>p. userId p = ''v1'') (userProfileT sample_world) = Some sample_profile"
    by (simp add: sample_world_def empty_world_def sample_profile_def)
  have d: "find (\<lambda>e. ev_id e = ''e2'') (eventDetailsT sample_world) = Some (sample_event ''e2'')"
    by (simp add: sample_world_def empty_world_def sample_event_def)
  have e: "pending sample_world = []"
    by (simp add: sample_world_def empty_world_def)
  have n: "''v1'' \<noteq> []" "''e2'' \<noteq> []"
    by simp_all
  show ?thesis
    using a b c d e assign_success [OF a n(1) b n(2) c d e]
    by (simp add: sample_world_def empty_world_def num_of_bigint_def)
qed

theorem assign_fewer_records:
  "find (\<lambda>p. userId p = []) (userProfileT blank_id_world) = Some (sample_profile\<lparr>userId := []\<rparr>)
   \<and> find (\<lambda>e. ev_id e = ''e1'') (eventDetailsT blank_id_world) = Some (sample_event ''e1'')
   \<and> pending blank_id_world = []
   \<and> assign (JObj [(''volunteerId'', JStr []), (''eventId'', JStr ''e1'')]) blank_id_world
       = (Responded 400 (Error ''volunteerId and eventId required''), blank_id_world)
   \<and> find (\<lambda>p. userId p = ''v1'') (userProfileT sample_world) = Some sample_profile
   \<and> find (\<lambda>e. ev_id e = ''e2'') (eventDetailsT sample_world) = Some (sample_event ''e2'')
   \<and> fst (assign (JObj [(''volunteerId'', JStr ''v1''), (''eventId'', JStr ''e2'')])
            (sample_world\<lparr>pending := [False, False, False, True]\<rparr>))
       = Responded 500 (Error ''assign_failed'')
   \<and> length (assignmentT (snd (assign (JObj [(''volunteerId'', JStr ''v1''), (''eventId'', JStr ''e2'')])
                                   (sample_world\<lparr>pending := [False, False, False, True]\<rparr>)))) = 1
   \<and> noticeT (snd (assign (JObj [(''volunteerId'', JStr ''v1''), (''eventId'', JStr ''e2'')])
                       (sample_world\<lparr>pending := [False, False, False, True]\<rparr>))) = []
   \<and> published (snd (assign (JObj [(''volunteerId'', JStr ''v1''), (''eventId'', JStr ''e2'')])
                         (sample_world\<lparr>pending := [False, False, False, True]\<rparr>))) = []"
proof -
  have a: "assign (JObj [(''volunteerId'', JStr []), (''eventId'', JStr ''e1'')]) blank_id_world
             = (Responded 400 (Error ''volunteerId and eventId required''), blank_id_world)"
    by (simp add: assign_def Let_def)
  have b: "assign_try (JStr ''v1'') (JStr ''e2'') (sample_world\<lparr>pending := [False, False, False, True]\<rparr>)
             = (Inl StoreFailure,
                sample_world\<lparr>assignmentT :=
                                [\<lparr>as_id = 1, as_volunteerId = ''v1'', as_eventId = ''e2'',
                                  as_createdAtMs = Some 1700000000000\<rparr>],
                             nextId := 2, pending := []\<rparr>)"
    by (simp add: assign_try_def findUnique_userProfile_def findUnique_eventDetails_def
        create_assignment_def create_notice_def answer_def Let_def sample_world_def
        empty_world_def sample_profile_def sample_event_def)
  have c: "assign (JObj [(''volunteerId'', JStr ''v1''), (''eventId'', JStr ''e2'')])
             (sample_world\<lparr>pending := [False, False, False, True]\<rparr>)
           = (Responded 500 (Error ''assign_failed''),
              sample_world\<lparr>assignmentT :=
                              [\<lparr>as_id = 1, as_volunteerId = ''v1'', as_eventId = ''e2'',
                                as_createdAtMs = Some 1700000000000\<rparr>],
                           nextId := 2, pending := []\<rparr>)"
    by (simp add: assign_def Let_def b)
  show ?thesis
    unfolding a c
    by (simp add: blank_id_world_def sample_world_def empty_world_def sample_profile_def
        sample_event_def)
qed


section \<open>GET /volunteer/:id\<close>

lemma js_gt_sub: "js_gt (js_sub b a) (Fin 0) = js_gt b a"
  by (cases a; cases b) simp_all

lemma js_gt_by_score: "js_gt (by_score x y) (Fin 0) = js_gt (rk_score y) (rk_score x)"
  by (simp add: by_score_def js_gt_sub)

lemma mset_js_insert: "mset (js_insert cmp x xs) = add_mset x (mset xs)"
  by (induction xs) simp_all

lemma mset_js_sort: "mset (js_sort cmp xs) = mset xs"
  by (induction xs) (simp_all add: mset_js_insert)

lemma set_js_sort: "set (js_sort cmp xs) = set xs"
  using mset_js_sort [of cmp xs] by (metis set_mset_mset)

lemma length_js_sort: "length (js_sort cmp xs) = length xs"
  using mset_js_sort [of cmp xs] by (metis size_mset)

lemma js_ge_trans: "js_ge a b \<Longrightarrow> js_ge b c \<Longrightarrow> js_ge a c"
  by (cases a; cases b; cases c) (simp_all add: js_ge_def)

lemma js_ge_total: "a \<noteq> NaN \<Longrightarrow> b \<noteq> NaN \<Longrightarrow> \<not> js_gt b a \<Longrightarrow> js_ge a b"
  by (simp add: js_ge_def)

lemma js_gt_ge: "js_gt a b \<Longrightarrow> js_ge a b"
  by (cases a; cases b) (simp_all add: js_ge_def)

lemma js_gt_not_NaN: "js_gt a b \<Longrightarrow> a \<noteq> NaN"
  by (cases a) simp_all

lemma sorted_js_insert:
  assumes "\<forall>y\<in>set ys. rk_score y \<noteq> NaN" and "rk_score x \<noteq> NaN"
      and "sorted_wrt (\<lambda>a b. js_ge (rk_score a) (rk_score b)) ys"
  shows "sorted_wrt (\<lambda>a b. js_ge (rk_score a) (rk_score b)) (js_insert by_score x ys)"
  using assms
proof (induction ys)
  case Nil
  then show ?case by simp
next
  case (Cons y ys)
  show ?case
  proof (cases "js_gt (rk_score y) (rk_score x)")
    case True
    have "set (js_insert by_score x ys) = insert x (set ys)"
      using mset_js_insert [of by_score x ys] by (metis set_mset_mset set_mset_add_mset_insert)
    then show ?thesis
      using True Cons by (auto simp add: js_gt_by_score js_gt_ge)
  next
    case False
    then have xy: "js_ge (rk_score x) (rk_score y)"
      using Cons.prems by (simp add: js_ge_total)
    have "\<forall>z\<in>set ys. js_ge (rk_score x) (rk_score z)"
      using xy Cons.prems(3) by (auto intro: js_ge_trans)
    then show ?thesis
      using False xy Cons.prems(3) by (simp add: js_gt_by_score)
  qed
qed

lemma sorted_js_sort:
  assumes "\<forall>y\<in>set xs. rk_score y \<noteq> NaN"
  shows "sorted_wrt (\<lambda>a b. js_ge (rk_score a) (rk_score b)) (js_sort by_score xs)"
  using assms
proof (induction xs)
  case Nil
  then show ?case by simp
next
  case (Cons x xs)
  then show ?case
    by (simp add: sorted_js_insert set_js_sort)
qed

lemma sorted_ranking:
  "sorted_wrt (\<lambda>a b. js_ge (rk_score a) (rk_score b)) (ranking score vDTO events)"
  unfolding ranking_def by (rule sorted_js_sort) (auto dest: js_gt_not_NaN)

lemma mset_ranking:
  "mset (ranking score vDTO events)
     = filter_mset (\<lambda>x. js_gt (rk_score x) (Fin 0)) (mset (score_pairs score vDTO events))"
  by (simp add: ranking_def mset_js_sort)

lemma trunc_nonneg: "0 \<le> r \<Longrightarrow> trunc r = \<lfloor>r\<rfloor>"
  by (simp add: trunc_def)

lemma js_slice0_nonneg: "0 \<le> r \<Longrightarrow> js_slice0 (Fin r) xs = take (nat \<lfloor>r\<rfloor>) xs"
  by (simp add: trunc_nonneg Let_def min_def)

lemma rank_try_found:
  assumes "find (\<lambda>p. userId p = ident) (userProfileT w) = Some v" and "pending w = []"
  shows "rank_try score topN ident w
           = (Inr (200, Ranked (js_slice0 topN (ranking score (toVolunteerDTO v) (eventDetailsT w)))), w)"
  using assms
  by (simp add: rank_try_def findUnique_userProfile_def findMany_eventDetails_def answer_quiet)

lemma sample_ranking:
  "ranking sample_score (toVolunteerDTO sample_profile) (eventDetailsT sample_world)
     = [\<lparr>rk_event = toEventDTO (sample_event ''e2''), rk_score = Fin 9\<rparr>,
        \<lparr>rk_event = toEventDTO (sample_event ''e1''), rk_score = Fin 5\<rparr>,
        \<lparr>rk_event = toEventDTO (sample_event ''e3''), rk_score = Fin 1\<rparr>]"
  by (simp add: ranking_def score_pairs_def sample_world_def empty_world_def sample_score_def
      toEventDTO_def sample_event_def by_score_def Let_def)

lemma length_many_events: "length (many_events n) = n"
  by (simp add: many_events_def)

lemma ranking_unit_score: "length (ranking unit_score vDTO events) = length events"
  by (simp add: ranking_def length_js_sort score_pairs_def unit_score_def Let_def)

lemma rank_try_rejected:
  "fst (answer w) \<Longrightarrow> fst (rank_try score topN ident w) = Inl StoreFailure"
  by (cases "answer w") (simp add: rank_try_def findUnique_userProfile_def)

lemma rank_try_unknown:
  "\<not> fst (answer w) \<Longrightarrow> find (\<lambda>p. userId p = ident) (userProfileT w) = None
     \<Longrightarrow> fst (rank_try score topN ident w) = Inr (404, Error ''volunteer not found'')"
  by (simp add: rank_try_def findUnique_userProfile_def answer_eq)

lemma rank_try_rejected_later:
  "\<not> fst (answer w) \<Longrightarrow> find (\<lambda>p. userId p = ident) (userProfileT w) \<noteq> None
     \<Longrightarrow> fst (answer (snd (answer w)))
     \<Longrightarrow> fst (rank_try score topN ident w) = Inl StoreFailure"
  by (auto simp add: rank_try_def findUnique_userProfile_def findMany_eventDetails_def answer_eq)

lemma rankForVolunteer_fst:
  "fst (rankForVolunteer score toNumber ident q w)
     = (case fst (rank_try score (case q of None \<Rightarrow> Fin 9999 | Some raw \<Rightarrow> toNumber raw) ident w) of
          Inr (st, b) \<Rightarrow> Responded st b
        | Inl _ \<Rightarrow> Responded 500 (Error ''rank_failed''))"
  by (simp add: rankForVolunteer_def split: prod.splits sum.splits)

text \<open>
  Claim C1, as amended. For a stored volunteer, any stored events and a \<open>topN\<close> that is
  a number not below zero (the default included), \<open>rankForVolunteer\<close> answers 200 with a
  list \<open>out\<close> of event and score pairs that is the ranking cut to its first entries,
  where the ranking
  \<^item> holds exactly the pairs of the stored events whose score is above zero, each as often
    as it is stored;
  \<^item> is in descending order of score;
  and \<open>out\<close> has at most \<open>topN\<close> entries, and loses an entry of the ranking only where
  one more would exceed \<open>topN\<close>. No pair in \<open>out\<close> has a score of zero or below. The
  store is left as it was. The hypothesis \<open>pending w = []\<close> says that the store answers
  the route's calls.

  The instance proved after the theorem is the specification's example: scores 5, 9 and 1
  and \<open>topN = 2\<close> give the pairs with scores 9 and 5.

  The claim as stated, for every \<open>topN\<close>, fails below zero: the slice then counts from
  the end of the ranking, and \<open>topN = -1\<close> on the same three events gives two pairs,
  \<open>rank_negative_topN\<close>.
\<close>

theorem rankForVolunteer_ranked:
  assumes stored: "find (\<lambda>p. userId p = ident) (userProfileT w) = Some v"
      and quiet: "pending w = []"
      and topN: "(case q of None \<Rightarrow> Fin 9999 | Some raw \<Rightarrow> toNumber raw) = n"
      and nonneg: "js_ge n (Fin 0)"
  shows "\<exists>out. rankForVolunteer score toNumber ident q w = (Responded 200 (Ranked out), w)
           \<and> out = take (length out) (ranking score (toVolunteerDTO v) (eventDetailsT w))
           \<and> js_ge n (Fin (real (length out)))
           \<and> (length out < length (ranking score (toVolunteerDTO v) (eventDetailsT w))
                \<longrightarrow> \<not> js_ge n (Fin (real (length out) + 1)))
           \<and> mset (ranking score (toVolunteerDTO v) (eventDetailsT w))
               = filter_mset (\<lambda>x. js_gt (rk_score x) (Fin 0))
                   (mset (score_pairs score (toVolunteerDTO v) (eventDetailsT w)))
           \<and> sorted_wrt (\<lambda>a b. js_ge (rk_score a) (rk_score b))
                (ranking score (toVolunteerDTO v) (eventDetailsT w))
           \<and> (\<forall>x\<in>set out. js_gt (rk_score x) (Fin 0))"
proof -
  let ?full = "ranking score (toVolunteerDTO v) (eventDetailsT w)"
  have r: "rankForVolunteer score toNumber ident q w = (Responded 200 (Ranked (js_slice0 n ?full)), w)"
    using topN by (simp add: rankForVolunteer_def rank_try_found [OF stored quiet])
  have cut: "js_slice0 n ?full = take (length (js_slice0 n ?full)) ?full
             \<and> js_ge n (Fin (real (length (js_slice0 n ?full))))
             \<and> (length (js_slice0 n ?full) < length ?full
                  \<longrightarrow> \<not> js_ge n (Fin (real (length (js_slice0 n ?full)) + 1)))"
  proof (cases n)
    case NaN
    then show ?thesis using nonneg by (simp add: js_ge_def)
  next
    case NegInf
    then show ?thesis using nonneg by (simp add: js_ge_def)
  next
    case PosInf
    then show ?thesis by (simp add: js_ge_def)
  next
    case (Fin r)
    then have r0: "0 \<le> r" using nonneg by (simp add: js_ge_def)
    have s: "js_slice0 n ?full = take (nat \<lfloor>r\<rfloor>) ?full"
      using Fin r0 by (simp add: js_slice0_nonneg del: js_slice0.simps(4))
    have fl: "0 \<le> \<lfloor>r\<rfloor>" using r0 by simp
    show ?thesis
    proof (cases "nat \<lfloor>r\<rfloor> \<le> length ?full")
      case True
      then have l: "length (take (nat \<lfloor>r\<rfloor>) ?full) = nat \<lfloor>r\<rfloor>" by simp
      have "real (nat \<lfloor>r\<rfloor>) \<le> r" using fl by simp
      moreover have "r < real (nat \<lfloor>r\<rfloor>) + 1" using fl by simp
      ultimately show ?thesis
        using Fin s l by (simp add: js_ge_def)
    next
      case False
      then have l: "take (nat \<lfloor>r\<rfloor>) ?full = ?full" by simp
      have "real (length ?full) \<le> real (nat \<lfloor>r\<rfloor>)" using False by simp
      also have "\<dots> \<le> r" using fl by simp
      finally show ?thesis
        using Fin s l by (simp add: js_ge_def)
    qed
  qed
  have "\<forall>x\<in>set ?full. js_gt (rk_score x) (Fin 0)"
    by (simp add: ranking_def set_js_sort)
  moreover have "set (js_slice0 n ?full) \<subseteq> set ?full"
    using cut by (metis set_take_subset)
  ultimately have pos: "\<forall>x\<in>set (js_slice0 n ?full). js_gt (rk_score x) (Fin 0)"
    by blast
  show ?thesis
    using r cut pos mset_ranking [of score "toVolunteerDTO v" "eventDetailsT w"]
      sorted_ranking [of score "toVolunteerDTO v" "eventDetailsT w"]
    by blast
qed

theorem rankForVolunteer_ranked_witness:
  "find (\<lambda>p. userId p = ''v1'') (userProfileT sample_world) = Some sample_profile
   \<and> pending sample_world = []
   \<and> (case Some ''2'' of None \<Rightarrow> Fin 9999 | Some raw \<Rightarrow> sample_Number raw) = Fin 2
   \<and> js_ge (Fin 2) (Fin 0)
   \<and> map rk_score (score_pairs sample_score (toVolunteerDTO sample_profile)
                      (eventDetailsT sample_world)) = [Fin 5, Fin 9, Fin 1]
   \<and> rankForVolunteer sample_score sample_Number ''v1'' (Some ''2'') sample_world
       = (Responded 200 (Ranked
            [\<lparr>rk_event = toEventDTO (sample_event ''e2''), rk_score = Fin 9\<rparr>,
             \<lparr>rk_event = toEventDTO (sample_event ''e1''), rk_score = Fin 5\<rparr>]), sample_world)"
proof -
  have a: "find (\<lambda>p. userId p = ''v1'') (userProfileT sample_world) = Some sample_profile"
    by (simp add: sample_world_def empty_world_def sample_profile_def)
  have b: "pending sample_world = []"
    by (simp add: sample_world_def empty_world_def)
  have c: "(case Some ''2'' of None \<Rightarrow> Fin 9999 | Some raw \<Rightarrow> sample_Number raw) = Fin 2"
    by (simp add: sample_Number_def)
  have d: "js_ge (Fin 2) (Fin 0)"
    by (simp add: js_ge_def)
  have e: "map rk_score (score_pairs sample_score (toVolunteerDTO sample_profile)
                      (eventDetailsT sample_world)) = [Fin 5, Fin 9, Fin 1]"
    by (simp add: score_pairs_def sample_world_def empty_world_def sample_score_def
        toEventDTO_def sample_event_def Let_def)
  obtain out where
    o: "rankForVolunteer sample_score sample_Number ''v1'' (Some ''2'') sample_world
          = (Responded 200 (Ranked out), sample_world)"
       "out = take (length out)
                (ranking sample_score (toVolunteerDTO sample_profile) (eventDetailsT sample_world))"
       "js_ge (Fin 2) (Fin (real (length out)))"
       "length out < length (ranking sample_score (toVolunteerDTO sample_profile)
                               (eventDetailsT sample_world))
          \<longrightarrow> \<not> js_ge (Fin 2) (Fin (real (length out) + 1))"
    using rankForVolunteer_ranked [where toNumber = sample_Number and q = "Some ''2''"
        and score = sample_score, OF a b c d]
    by blast
  have "length out = 2"
    using o(3) o(4) by (simp add: sample_ranking js_ge_def)
  then have "out = [\<lparr>rk_event = toEventDTO (sample_event ''e2''), rk_score = Fin 9\<rparr>,
                    \<lparr>rk_event = toEventDTO (sample_event ''e1''), rk_score = Fin 5\<rparr>]"
    using o(2) by (simp add: sample_ranking)
  then show ?thesis
    using a b c d e o(1) by simp
qed

theorem rank_negative_topN:
  "sample_Number ''-1'' = Fin (- 1)
   \<and> rankForVolunteer sample_score sample_Number ''v1'' (Some ''-1'') sample_world
       = (Responded 200 (Ranked
            [\<lparr>rk_event = toEventDTO (sample_event ''e2''), rk_score = Fin 9\<rparr>,
             \<lparr>rk_event = toEventDTO (sample_event ''e1''), rk_score = Fin 5\<rparr>]), sample_world)"
proof -
  have a: "find (\<lambda>p. userId p = ''v1'') (userProfileT sample_world) = Some sample_profile"
    by (simp add: sample_world_def empty_world_def sample_profile_def)
  have b: "pending sample_world = []"
    by (simp add: sample_world_def empty_world_def)
  have c: "sample_Number ''-1'' = Fin (- 1)"
    by (simp add: sample_Number_def)
  have d: "js_slice0 (Fin (- 1))
             (ranking sample_score (toVolunteerDTO sample_profile) (eventDetailsT sample_world))
           = [\<lparr>rk_event = toEventDTO (sample_event ''e2''), rk_score = Fin 9\<rparr>,
              \<lparr>rk_event = toEventDTO (sample_event ''e1''), rk_score = Fin 5\<rparr>]"
    by (simp add: sample_ranking trunc_def ceiling_def)
  show ?thesis
    by (simp add: rankForVolunteer_def rank_try_found [OF a b] c d del: js_slice0.simps)
qed

text \<open>
  Claim C9. For a stored volunteer and any stored events, a \<open>topN\<close> parameter that is
  present and that \<^verbatim>\<open>Number\<close> turns into NaN gives the answer 200 with the empty list:
  neither an error nor the default. The slice to NaN keeps no element.
\<close>

theorem rank_NaN_empty:
  assumes "find (\<lambda>p. userId p = ident) (userProfileT w) = Some v"
      and "pending w = []"
      and "toNumber raw = NaN"
  shows "rankForVolunteer score toNumber ident (Some raw) w = (Responded 200 (Ranked []), w)"
  using assms by (simp add: rankForVolunteer_def rank_try_found)

theorem rank_NaN_empty_witness:
  "find (\<lambda>p. userId p = ''v1'') (userProfileT sample_world) = Some sample_profile
   \<and> pending sample_world = []
   \<and> sample_Number ''abc'' = NaN
   \<and> rankForVolunteer sample_score sample_Number ''v1'' (Some ''abc'') sample_world
       = (Responded 200 (Ranked []), sample_world)"
proof -
  have a: "find (\<lambda>p. userId p = ''v1'') (userProfileT sample_world) = Some sample_profile"
    by (simp add: sample_world_def empty_world_def sample_profile_def)
  have b: "pending sample_world = []"
    by (simp add: sample_world_def empty_world_def)
  have c: "sample_Number ''abc'' = NaN"
    by (simp add: sample_Number_def)
  show ?thesis
    using a b c
      rank_NaN_empty [where toNumber = sample_Number and raw = "''abc''" and score = sample_score,
        OF a b c]
    by simp
qed

text \<open>
  Claim C4, as amended. Without a \<open>topN\<close> parameter the ranking is cut to its first
  9999 entries: every event with a score above zero is returned as long as there are at most
  9999 of them, and not beyond. The claim as stated (no truncation in any store state) fails
  on a store with 10000 matching events, \<open>default_topN_truncates\<close>.
\<close>

theorem rank_default_topN:
  assumes "find (\<lambda>p. userId p = ident) (userProfileT w) = Some v"
      and "pending w = []"
  shows "rankForVolunteer score toNumber ident None w
           = (Responded 200 (Ranked (take 9999 (ranking score (toVolunteerDTO v) (eventDetailsT w)))), w)
         \<and> (length (ranking score (toVolunteerDTO v) (eventDetailsT w)) \<le> 9999
              \<longrightarrow> take 9999 (ranking score (toVolunteerDTO v) (eventDetailsT w))
                    = ranking score (toVolunteerDTO v) (eventDetailsT w))"
  using assms
  by (simp add: rankForVolunteer_def rank_try_found js_slice0_nonneg del: js_slice0.simps(4))

theorem rank_default_topN_witness:
  "find (\<lambda>p. userId p = ''v1'') (userProfileT sample_world) = Some sample_profile
   \<and> pending sample_world = []
   \<and> length (ranking sample_score (toVolunteerDTO sample_profile) (eventDetailsT sample_world)) \<le> 9999
   \<and> rankForVolunteer sample_score sample_Number ''v1'' None sample_world
       = (Responded 200 (Ranked
            (ranking sample_score (toVolunteerDTO sample_profile) (eventDetailsT sample_world))),
          sample_world)"
proof -
  have a: "find (\<lambda>p. userId p = ''v1'') (userProfileT sample_world) = Some sample_profile"
    by (simp add: sample_world_def empty_world_def sample_profile_def)
  have b: "pending sample_world = []"
    by (simp add: sample_world_def empty_world_def)
  have c: "length (ranking sample_score (toVolunteerDTO sample_profile)
             (eventDetailsT sample_world)) \<le> 9999"
    by (simp add: sample_ranking)
  show ?thesis
    using a b c
      rank_default_topN [where toNumber = sample_Number and score = sample_score, OF a b]
    by simp
qed

theorem default_topN_truncates:
  "length (ranking unit_score (toVolunteerDTO sample_profile) (eventDetailsT crowded_world)) = 10000
   \<and> fst (rankForVolunteer unit_score sample_Number ''v1'' None crowded_world)
       = Responded 200 (Ranked (take 9999
           (ranking unit_score (toVolunteerDTO sample_profile) (eventDetailsT crowded_world))))
   \<and> length (take 9999
        (ranking unit_score (toVolunteerDTO sample_profile) (eventDetailsT crowded_world))) = 9999"
proof -
  have a: "find (\<lambda>p. userId p = ''v1'') (userProfileT crowded_world) = Some sample_profile"
    by (simp add: crowded_world_def empty_world_def sample_profile_def)
  have b: "pending crowded_world = []"
    by (simp add: crowded_world_def empty_world_def)
  have c: "eventDetailsT crowded_world = many_events 10000"
    by (simp add: crowded_world_def empty_world_def)
  have d: "rank_try unit_score (Fin 9999) ''v1'' crowded_world
           = (Inr (200, Ranked (js_slice0 (Fin 9999)
                (ranking unit_score (toVolunteerDTO sample_profile) (eventDetailsT crowded_world)))),
              crowded_world)"
    using a b by (rule rank_try_found)
  show ?thesis
    by (simp add: rankForVolunteer_def d js_slice0_nonneg ranking_unit_score c length_many_events
        del: js_slice0.simps(4))
qed

text \<open>
  Claim C5. When the store answers the lookup and has no profile for the id,
  \<open>rankForVolunteer\<close> answers 404 with the body \<^verbatim>\<open>{error: "volunteer not found"}\<close>.
  Whatever the id, the query, the stored data and the behaviour of the store, the route
  ends in a response, never in an exception: when the store rejects the lookup, or rejects
  the listing of the events after a successful lookup, the response is the 500 with
  \<^verbatim>\<open>{error: "rank_failed"}\<close>.
\<close>

theorem rank_unknown_volunteer:
  "(find (\<lambda>p. userId p = ident) (userProfileT w) = None \<and> \<not> fst (answer w)
      \<longrightarrow> fst (rankForVolunteer score toNumber ident q w)
            = Responded 404 (Error ''volunteer not found''))
   \<and> (\<exists>st b. fst (rankForVolunteer score toNumber ident q w) = Responded st b)
   \<and> (fst (answer w)
      \<longrightarrow> fst (rankForVolunteer score toNumber ident q w) = Responded 500 (Error ''rank_failed''))
   \<and> (\<not> fst (answer w) \<and> find (\<lambda>p. userId p = ident) (userProfileT w) \<noteq> None
        \<and> fst (answer (snd (answer w)))
      \<longrightarrow> fst (rankForVolunteer score toNumber ident q w) = Responded 500 (Error ''rank_failed''))"
proof (intro conjI impI)
  show "\<exists>st b. fst (rankForVolunteer score toNumber ident q w) = Responded st b"
    by (simp add: rankForVolunteer_fst split: sum.splits prod.splits)
qed (simp_all add: rankForVolunteer_fst rank_try_rejected rank_try_unknown rank_try_rejected_later)

theorem rank_unknown_volunteer_witness:
  "find (\<lambda>p. userId p = ''v9'') (userProfileT sample_world) = None
   \<and> \<not> fst (answer sample_world)
   \<and> fst (rankForVolunteer sample_score sample_Number ''v9'' None sample_world)
       = Responded 404 (Error ''volunteer not found'')
   \<and> fst (answer (sample_world\<lparr>pending := [True]\<rparr>))
   \<and> fst (rankForVolunteer sample_score sample_Number ''v9'' None (sample_world\<lparr>pending := [True]\<rparr>))
       = Responded 500 (Error ''rank_failed'')
   \<and> fst (answer (snd (answer (sample_world\<lparr>pending := [False, True]\<rparr>))))
   \<and> fst (rankForVolunteer sample_score sample_Number ''v1'' None
            (sample_world\<lparr>pending := [False, True]\<rparr>))
       = Responded 500 (Error ''rank_failed'')"
proof -
  have a: "find (\<lambda>p. userId p = ''v9'') (userProfileT sample_world) = None"
    by (simp add: sample_world_def empty_world_def sample_profile_def)
  have b: "\<not> fst (answer sample_world)"
    by (simp add: answer_def sample_world_def empty_world_def)
  have c: "fst (answer (sample_world\<lparr>pending := [True]\<rparr>))"
    by (simp add: answer_def)
  have d: "\<not> fst (answer (sample_world\<lparr>pending := [False, True]\<rparr>))"
    by (simp add: answer_def)
  have e: "find (\<lambda>p. userId p = ''v1'') (userProfileT (sample_world\<lparr>pending := [False, True]\<rparr>)) \<noteq> None"
    by (simp add: sample_world_def empty_world_def sample_profile_def)
  have f: "fst (answer (snd (answer (sample_world\<lparr>pending := [False, True]\<rparr>))))"
    by (simp add: answer_def)
  show ?thesis
    using a b c d e f
      rank_unknown_volunteer [of "''v9''" sample_world sample_score sample_Number None]
      rank_unknown_volunteer [of "''v9''" "sample_world\<lparr>pending := [True]\<rparr>" sample_score
        sample_Number None]
      rank_unknown_volunteer [of "''v1''" "sample_world\<lparr>pending := [False, True]\<rparr>" sample_score
        sample_Number None]
    by simp
qed


section \<open>Running the same upserts again\<close>

lemma fst_strip: "fst (strip u) = fst u"
  by (simp add: strip_def)

lemma snd_strip: "snd (strip u) = fst (snd u)"
  by (simp add: strip_def)

lemma steady_key: "steady key kus \<Longrightarrow> a \<in> set kus \<Longrightarrow> key (snd a r) = key r"
  by (simp add: steady_def list_all_iff)

lemma steady_over: "steady key kus \<Longrightarrow> a \<in> set kus \<Longrightarrow> b \<in> set kus \<Longrightarrow> snd a (snd b r) = snd a r"
  by (simp add: steady_def list_all_iff)

lemma steady_subset: "steady key kus \<Longrightarrow> set kus' \<subseteq> set kus \<Longrightarrow> steady key kus'"
  unfolding steady_def list_all_iff by blast

lemma key_touch: "steady key kus \<Longrightarrow> a \<in> set kus \<Longrightarrow> key (touch key a r) = key r"
  by (simp add: touch_def steady_key)

lemma key_settle: "steady key kus \<Longrightarrow> key (settle key kus r) = key r"
proof (induction kus arbitrary: r rule: rev_induct)
  case Nil
  then show ?case by (simp add: settle_def)
next
  case (snoc a kus)
  have s: "steady key kus" using snoc.prems by (rule steady_subset) auto
  have "settle key (kus @ [a]) r = touch key a (settle key kus r)"
    by (simp add: settle_def)
  then show ?case
    using snoc.IH [OF s] key_touch [OF snoc.prems, of a] by simp
qed

lemma over_touch:
  "steady key kus \<Longrightarrow> a \<in> set kus \<Longrightarrow> b \<in> set kus \<Longrightarrow> snd a (touch key b r) = snd a r"
  by (simp add: touch_def steady_over)

lemma over_settle:
  assumes "steady key kus" and "a \<in> set kus" and "set kus' \<subseteq> set kus"
  shows "snd a (settle key kus' r) = snd a r"
  using assms(3)
proof (induction kus' arbitrary: r rule: rev_induct)
  case Nil
  then show ?case by (simp add: settle_def)
next
  case (snoc b kus')
  have "settle key (kus' @ [b]) r = touch key b (settle key kus' r)"
    by (simp add: settle_def)
  then show ?case
    using snoc over_touch [OF assms(1) assms(2), of b] by simp
qed

lemma apply_upsert_present:
  "fst u \<in> key ` set rows \<Longrightarrow> apply_upsert key u rows = map (touch key (strip u)) rows"
  by (auto simp add: apply_upsert_def upsert_rows_def list_ex_iff touch_def strip_def)

lemma apply_upsert_absent:
  "fst u \<notin> key ` set rows \<Longrightarrow> apply_upsert key u rows = rows @ [snd (snd u)]"
  by (force simp add: apply_upsert_def upsert_rows_def list_ex_iff)

lemma keys_apply_upsert:
  assumes "\<forall>r. key (fst (snd u) r) = key r" and "key (snd (snd u)) = fst u"
  shows "key ` set (apply_upsert key u rows) = insert (fst u) (key ` set rows)"
proof (cases "fst u \<in> key ` set rows")
  case True
  have "key (touch key (strip u) r) = key r" for r
    using assms(1) by (simp add: touch_def strip_def)
  then have "key ` set (map (touch key (strip u)) rows) = key ` set rows"
    by (simp add: image_image)
  then show ?thesis
    using True by (auto simp add: apply_upsert_present)
next
  case False
  then show ?thesis
    using assms(2) by (simp add: apply_upsert_absent)
qed


lemma run_upserts_present:
  assumes "steady key (map strip us)" and "fst ` set us \<subseteq> key ` set rows"
  shows "run_upserts key us rows = map (settle key (map strip us)) rows"
  using assms
proof (induction us arbitrary: rows)
  case Nil
  then show ?case by (simp add: run_upserts_def settle_def)
next
  case (Cons u us)
  have s: "steady key (map strip us)"
    using Cons.prems(1) by (rule steady_subset) auto
  have k: "key (touch key (strip u) r) = key r" for r
    using key_touch [OF Cons.prems(1), of "strip u"] by simp
  have a: "apply_upsert key u rows = map (touch key (strip u)) rows"
    using Cons.prems(2) by (simp add: apply_upsert_present)
  have "key ` set (map (touch key (strip u)) rows) = key ` set rows"
    using k by (simp add: image_image)
  then have p: "fst ` set us \<subseteq> key ` set (map (touch key (strip u)) rows)"
    using Cons.prems(2) by simp
  have "run_upserts key (u # us) rows = run_upserts key us (map (touch key (strip u)) rows)"
    by (simp add: run_upserts_def a)
  also have "\<dots> = map (settle key (map strip us)) (map (touch key (strip u)) rows)"
    using s p by (rule Cons.IH)
  also have "\<dots> = map (settle key (map strip (u # us))) rows"
    by (simp add: settle_def)
  finally show ?case .
qed

lemma tidy_steady: "tidy key us \<Longrightarrow> steady key (map strip us)"
  by (simp add: tidy_def)

lemma tidy_subset:
  assumes "tidy key us" and "set us' \<subseteq> set us"
  shows "tidy key us'"
proof -
  have sub: "set (map strip us') \<subseteq> set (map strip us)"
    using assms(2) by auto
  have "steady key (map strip us)"
    using assms(1) by (simp add: tidy_def)
  then have "steady key (map strip us')"
    using sub by (rule steady_subset)
  then show ?thesis
    using assms by (auto simp add: tidy_def list_all_iff)
qed

lemma tidy_mk: "tidy key us \<Longrightarrow> u \<in> set us
   \<Longrightarrow> key (snd (snd u)) = fst u \<and> fst (snd u) (snd (snd u)) = snd (snd u)"
  by (simp add: tidy_def list_all_iff)

lemma tidy_key: "tidy key us \<Longrightarrow> u \<in> set us \<Longrightarrow> key (fst (snd u) r) = key r"
  using steady_key [of key "map strip us" "strip u" r] by (simp add: tidy_def strip_def)

lemma keys_run_upserts:
  assumes "tidy key us"
  shows "key ` set (run_upserts key us rows) = key ` set rows \<union> fst ` set us"
  using assms
proof (induction us arbitrary: rows)
  case Nil
  then show ?case by (simp add: run_upserts_def)
next
  case (Cons u us)
  have t: "tidy key us"
    using Cons.prems by (rule tidy_subset) auto
  have k: "key ` set (apply_upsert key u rows) = insert (fst u) (key ` set rows)"
    using tidy_key [OF Cons.prems, of u] tidy_mk [OF Cons.prems, of u]
    by (intro keys_apply_upsert) simp_all
  have "run_upserts key (u # us) rows = run_upserts key us (apply_upsert key u rows)"
    by (simp add: run_upserts_def)
  then show ?case
    using Cons.IH [OF t, of "apply_upsert key u rows"] k by auto
qed

lemma settled_run_upserts:
  assumes "tidy key us" and "r \<in> set (run_upserts key us rows)"
  shows "settle key (map strip us) r = r"
  using assms
proof (induction us arbitrary: r rule: rev_induct)
  case Nil
  then show ?case by (simp add: settle_def)
next
  case (snoc u us)
  let ?R = "run_upserts key us rows"
  have t: "tidy key us"
    using snoc.prems(1) by (rule tidy_subset) auto
  have st: "steady key (map strip (us @ [u]))"
    using snoc.prems(1) by (rule tidy_steady)
  have st': "steady key (map strip us)"
    using t by (rule tidy_steady)
  have uin: "strip u \<in> set (map strip (us @ [u]))"
    by simp
  have run: "run_upserts key (us @ [u]) rows = apply_upsert key u ?R"
    by (simp add: run_upserts_def)
  have goal_eq: "settle key (map strip (us @ [u])) r
                   = touch key (strip u) (settle key (map strip us) r)"
    by (simp add: settle_def)
  have old: "touch key (strip u) (settle key (map strip us) x) = x"
    if "x \<in> set ?R" and "key x \<noteq> fst u" for x
  proof -
    have "settle key (map strip us) x = x"
      using t that(1) by (rule snoc.IH)
    then show ?thesis
      using that(2) by (simp add: touch_def fst_strip)
  qed
  have upd: "touch key (strip u) (settle key (map strip us) x) = fst (snd u) x"
    if "key x = fst u" for x
  proof -
    have "key (settle key (map strip us) x) = fst u"
      using key_settle [OF st', of x] that by simp
    then have "touch key (strip u) (settle key (map strip us) x)
                 = snd (strip u) (settle key (map strip us) x)"
      by (simp add: touch_def fst_strip)
    also have "\<dots> = snd (strip u) x"
      using st uin by (rule over_settle) auto
    finally show ?thesis by (simp add: snd_strip)
  qed
  have over: "fst (snd u) (fst (snd u) x) = fst (snd u) x" for x
    using steady_over [OF st uin uin, of x] by (simp add: snd_strip)
  have "touch key (strip u) (settle key (map strip us) r) = r"
  proof (cases "fst u \<in> key ` set ?R")
    case True
    then obtain x where x: "x \<in> set ?R" "r = touch key (strip u) x"
      using snoc.prems(2) by (auto simp add: run apply_upsert_present)
    show ?thesis
    proof (cases "key x = fst u")
      case True
      then have r: "r = fst (snd u) x"
        using x(2) by (simp add: touch_def fst_strip snd_strip)
      have "key r = fst u"
        using r True tidy_key [OF snoc.prems(1), of u x] by simp
      then have "touch key (strip u) (settle key (map strip us) r) = fst (snd u) r"
        by (rule upd)
      then show ?thesis
        using r over [of x] by simp
    next
      case False
      then have "r = x"
        using x(2) by (simp add: touch_def fst_strip)
      then show ?thesis
        using old [OF x(1) False] by simp
    qed
  next
    case False
    then have "r \<in> set ?R \<or> r = snd (snd u)"
      using snoc.prems(2) by (auto simp add: run apply_upsert_absent)
    then show ?thesis
    proof
      assume a: "r \<in> set ?R"
      then have "key r \<noteq> fst u"
        using False by force
      then show ?thesis
        using old [OF a] by simp
    next
      assume a: "r = snd (snd u)"
      have k: "key r = fst u" and f: "fst (snd u) r = r"
        using a tidy_mk [OF snoc.prems(1), of u] by simp_all
      have "touch key (strip u) (settle key (map strip us) r) = fst (snd u) r"
        using k by (rule upd)
      then show ?thesis
        using f by simp
    qed
  qed
  then show ?case
    unfolding goal_eq .
qed

lemma run_upserts_twice:
  assumes "tidy key us" and "map strip us' = map strip us"
  shows "run_upserts key us' (run_upserts key us rows) = run_upserts key us rows"
proof -
  let ?R = "run_upserts key us rows"
  have "fst ` set us' = fst ` set (map strip us')"
    by (force simp add: strip_def)
  also have "\<dots> = fst ` set us"
    unfolding assms(2) by (force simp add: strip_def)
  finally have "fst ` set us' \<subseteq> key ` set ?R"
    using keys_run_upserts [OF assms(1), of rows] by auto
  moreover have "steady key (map strip us')"
    using assms by (simp add: tidy_steady)
  ultimately have "run_upserts key us' ?R = map (settle key (map strip us')) ?R"
    by (rule run_upserts_present [rotated])
  also have "\<dots> = map (\<lambda>r. r) ?R"
    unfolding assms(2) using settled_run_upserts [OF assms(1)] by (intro map_cong) auto
  finally show ?thesis by simp
qed


section \<open>The seed script as a sequence of upserts\<close>

lemma map_key_apply_upsert:
  assumes "\<forall>r. key (fst (snd u) r) = key r" and "key (snd (snd u)) = fst u"
  shows "map key (apply_upsert key u rows)
           = (if fst u \<in> key ` set rows then map key rows else map key rows @ [fst u])"
proof (cases "fst u \<in> key ` set rows")
  case True
  have "key (touch key (strip u) r) = key r" for r
    using assms(1) by (simp add: touch_def snd_strip)
  then show ?thesis
    using True by (simp add: apply_upsert_present)
next
  case False
  then show ?thesis
    using assms(2) by (simp add: apply_upsert_absent)
qed

lemma distinct_run_upserts:
  assumes "tidy key us" and "distinct (map key rows)"
  shows "distinct (map key (run_upserts key us rows))"
  using assms
proof (induction us arbitrary: rows)
  case Nil
  then show ?case by (simp add: run_upserts_def)
next
  case (Cons u us)
  have t: "tidy key us"
    using Cons.prems(1) by (rule tidy_subset) auto
  have m: "map key (apply_upsert key u rows)
             = (if fst u \<in> key ` set rows then map key rows else map key rows @ [fst u])"
    using tidy_key [OF Cons.prems(1), of u] tidy_mk [OF Cons.prems(1), of u]
    by (intro map_key_apply_upsert) simp_all
  have d: "distinct (map key (apply_upsert key u rows))"
    using Cons.prems(2) by (simp add: m)
  have "run_upserts key (u # us) rows = run_upserts key us (apply_upsert key u rows)"
    by (simp add: run_upserts_def)
  then show ?case
    using Cons.IH [OF t d] by simp
qed

lemma one_row_per_key:
  "distinct (map key rows) \<Longrightarrow> k \<in> key ` set rows \<Longrightarrow> length (filter (\<lambda>r. key r = k) rows) = 1"
proof (induction rows)
  case Nil
  then show ?case by simp
next
  case (Cons r rows)
  show ?case
  proof (cases "key r = k")
    case True
    have "key r \<notin> key ` set rows"
      using Cons.prems(1) by simp
    then have "\<forall>x\<in>set rows. key x \<noteq> k"
      using True by (metis imageI)
    then have "filter (\<lambda>r. key r = k) rows = []"
      by (simp add: filter_empty_conv)
    then show ?thesis
      using True by simp
  next
    case False
    then show ?thesis
      using Cons by auto
  qed
qed

lemma tidy_states: "tidy stateCode (map state_upsert ss)"
  by (auto simp add: tidy_def steady_def list_all_iff strip_def state_upsert_def)

lemma tidy_creds: "tidy cred_userId (map cred_upsert vs)"
  by (auto simp add: tidy_def steady_def list_all_iff strip_def cred_upsert_def)

lemma tidy_profiles: "tidy userId (map (profile_upsert now) vs)"
  by (auto simp add: tidy_def steady_def list_all_iff strip_def profile_upsert_def)

lemma event_upserts_form: "u \<in> set (event_upserts es) \<Longrightarrow> \<exists>e d. u = event_upsert e d"
  by (induction es) (auto split: option.splits)

lemma tidy_events: "tidy ev_id (event_upserts es)"
  unfolding tidy_def steady_def list_all_iff
  by (auto simp add: strip_def event_upsert_def dest!: event_upserts_form)

lemma strip_profiles:
  "map strip (map (profile_upsert now') vs) = map strip (map (profile_upsert now) vs)"
  by (simp add: strip_def profile_upsert_def)


lemma upsert_states_quiet:
  "pending w = [] \<Longrightarrow>
   upsert_states s w = (None, w\<lparr>statesT := apply_upsert stateCode (state_upsert s) (statesT w)\<rparr>)"
  by (simp add: upsert_states_def answer_quiet apply_upsert_def state_upsert_def)

lemma seed_states_quiet:
  "pending w = [] \<Longrightarrow>
   seed_states ss w = (None, w\<lparr>statesT := run_upserts stateCode (map state_upsert ss) (statesT w)\<rparr>)"
proof (induction ss arbitrary: w)
  case Nil
  then show ?case by (simp add: run_upserts_def)
next
  case (Cons s ss)
  let ?w = "w\<lparr>statesT := apply_upsert stateCode (state_upsert s) (statesT w)\<rparr>"
  have "pending ?w = []" using Cons.prems by simp
  then have "seed_states ss ?w
      = (None, ?w\<lparr>statesT := run_upserts stateCode (map state_upsert ss) (statesT ?w)\<rparr>)"
    by (rule Cons.IH)
  then show ?case
    using Cons.prems by (simp add: upsert_states_quiet run_upserts_def)
qed

lemma seed_vol_quiet:
  "pending w = [] \<Longrightarrow>
   transaction (seed_vol v) w
     = (None, w\<lparr>userCredentialsT := apply_upsert cred_userId (cred_upsert v) (userCredentialsT w),
                 userProfileT := apply_upsert userId (profile_upsert (clock w) v) (userProfileT w)\<rparr>)"
  by (simp add: transaction_def seed_vol_def upsert_userCredentials_def upsert_userProfile_def
      answer_quiet answer_def apply_upsert_def cred_upsert_def profile_upsert_def)

lemma seed_vols_quiet:
  "pending w = [] \<Longrightarrow>
   seed_vols vs w
     = (None, w\<lparr>userCredentialsT := run_upserts cred_userId (map cred_upsert vs) (userCredentialsT w),
                 userProfileT := run_upserts userId (map (profile_upsert (clock w)) vs) (userProfileT w)\<rparr>)"
proof (induction vs arbitrary: w)
  case Nil
  then show ?case by (simp add: run_upserts_def)
next
  case (Cons v vs)
  let ?w = "w\<lparr>userCredentialsT := apply_upsert cred_userId (cred_upsert v) (userCredentialsT w),
              userProfileT := apply_upsert userId (profile_upsert (clock w) v) (userProfileT w)\<rparr>"
  have "pending ?w = []" using Cons.prems by simp
  then have "seed_vols vs ?w
      = (None, ?w\<lparr>userCredentialsT := run_upserts cred_userId (map cred_upsert vs) (userCredentialsT ?w),
                   userProfileT := run_upserts userId (map (profile_upsert (clock ?w)) vs) (userProfileT ?w)\<rparr>)"
    by (rule Cons.IH)
  then show ?case
    using Cons.prems by (simp add: seed_vol_quiet run_upserts_def)
qed

lemma seed_events_quiet:
  "pending w = [] \<Longrightarrow>
   seed_events es w
     = (if bad_date es then Some ValidationError else None,
        w\<lparr>eventDetailsT := run_upserts ev_id (event_upserts es) (eventDetailsT w)\<rparr>)"
proof (induction es arbitrary: w)
  case Nil
  then show ?case by (simp add: run_upserts_def)
next
  case (Cons e es)
  show ?case
  proof (cases "de_date e")
    case None
    then show ?thesis
      by (simp add: upsert_eventDetails_def run_upserts_def)
  next
    case (Some d)
    let ?w = "w\<lparr>eventDetailsT := apply_upsert ev_id (event_upsert e d) (eventDetailsT w)\<rparr>"
    have u: "upsert_eventDetails e w = (None, ?w)"
      using Some Cons.prems
      by (simp add: upsert_eventDetails_def answer_quiet apply_upsert_def event_upsert_def)
    have "pending ?w = []" using Cons.prems by simp
    then have "seed_events es ?w
      = (if bad_date es then Some ValidationError else None,
         ?w\<lparr>eventDetailsT := run_upserts ev_id (event_upserts es) (eventDetailsT ?w)\<rparr>)"
      by (rule Cons.IH)
    then show ?thesis
      using Some by (simp add: u run_upserts_def)
  qed
qed

lemma main_quiet:
  assumes "pending w = []"
  shows "main vs es w
     = (if bad_date es then 1 else 0,
        w\<lparr>userCredentialsT := run_upserts cred_userId (map cred_upsert vs) (userCredentialsT w),
          userProfileT := run_upserts userId (map (profile_upsert (clock w)) vs) (userProfileT w),
          eventDetailsT := run_upserts ev_id (event_upserts es) (eventDetailsT w),
          statesT := run_upserts stateCode (map state_upsert usStates) (statesT w)\<rparr>)"
  using assms
  by (simp add: main_def seedStates_def seedDemo_def seed_states_quiet seed_vols_quiet
      seed_events_quiet)


section \<open>Seeding twice\<close>

text \<open>
  Claim C7. Seeding is idempotent. When the store answers every call, a second run of the
  seed script over the same demo data, at whatever time, leaves every table as the first
  run left it, and ends with the same exit status. In particular, in a store where no two
  profiles share a user id (the column is a unique key), each volunteer id of the demo data
  has exactly one profile row after the second run.
\<close>

theorem seed_twice:
  assumes "pending w = []"
  shows "main vs es ((snd (main vs es w))\<lparr>clock := later\<rparr>)
           = (fst (main vs es w), (snd (main vs es w))\<lparr>clock := later\<rparr>)
         \<and> (distinct (map userId (userProfileT w))
              \<longrightarrow> (\<forall>v\<in>set vs.
                    length (filter (\<lambda>p. userId p = dv_id v)
                              (userProfileT (snd (main vs es ((snd (main vs es w))\<lparr>clock := later\<rparr>)))))
                      = 1))"
proof -
  let ?C = "run_upserts cred_userId (map cred_upsert vs) (userCredentialsT w)"
  let ?P = "run_upserts userId (map (profile_upsert (clock w)) vs) (userProfileT w)"
  let ?E = "run_upserts ev_id (event_upserts es) (eventDetailsT w)"
  let ?S = "run_upserts stateCode (map state_upsert usStates) (statesT w)"
  let ?w1 = "w\<lparr>userCredentialsT := ?C, userProfileT := ?P, eventDetailsT := ?E, statesT := ?S\<rparr>"
  have once: "main vs es w = (if bad_date es then 1 else 0, ?w1)"
    using assms by (rule main_quiet)
  have c: "run_upserts cred_userId (map cred_upsert vs) ?C = ?C"
    using tidy_creds by (rule run_upserts_twice) simp
  have p: "run_upserts userId (map (profile_upsert later) vs) ?P = ?P"
    using tidy_profiles strip_profiles by (rule run_upserts_twice)
  have e: "run_upserts ev_id (event_upserts es) ?E = ?E"
    using tidy_events by (rule run_upserts_twice) simp
  have s: "run_upserts stateCode (map state_upsert usStates) ?S = ?S"
    using tidy_states by (rule run_upserts_twice) simp
  have q: "pending (?w1\<lparr>clock := later\<rparr>) = []"
    using assms by simp
  have twice: "main vs es (?w1\<lparr>clock := later\<rparr>)
                 = (if bad_date es then 1 else 0, ?w1\<lparr>clock := later\<rparr>)"
    unfolding main_quiet [OF q] by (simp add: c p e s)
  have one: "length (filter (\<lambda>p. userId p = dv_id v) ?P) = 1"
    if d: "distinct (map userId (userProfileT w))" and v: "v \<in> set vs" for v
  proof -
    have "distinct (map userId ?P)"
      using tidy_profiles d by (rule distinct_run_upserts)
    moreover have "dv_id v \<in> userId ` set ?P"
      using v keys_run_upserts [OF tidy_profiles, of "clock w" vs "userProfileT w"]
      by (force simp add: profile_upsert_def)
    ultimately show ?thesis
      by (rule one_row_per_key)
  qed
  show ?thesis
    using one by (simp add: once twice)
qed

theorem seed_twice_witness:
  "pending empty_world = []
   \<and> distinct (map userId (userProfileT empty_world))
   \<and> main sample_vols sample_events ((snd (main sample_vols sample_events empty_world))\<lparr>clock := 86400000\<rparr>)
       = (fst (main sample_vols sample_events empty_world),
          (snd (main sample_vols sample_events empty_world))\<lparr>clock := 86400000\<rparr>)
   \<and> map userId (userProfileT (snd (main sample_vols sample_events empty_world))) = [''v1'', ''v2'']
   \<and> length (filter (\<lambda>p. userId p = ''v1'')
        (userProfileT (snd (main sample_vols sample_events
           ((snd (main sample_vols sample_events empty_world))\<lparr>clock := 86400000\<rparr>))))) = 1"
proof -
  have a: "pending empty_world = []"
    by (simp add: empty_world_def)
  have b: "distinct (map userId (userProfileT empty_world))"
    by (simp add: empty_world_def)
  have m: "userProfileT (snd (main sample_vols sample_events empty_world))
             = run_upserts userId (map (profile_upsert (clock empty_world)) sample_vols)
                 (userProfileT empty_world)"
    by (simp add: main_quiet [OF a])
  have c: "map userId (userProfileT (snd (main sample_vols sample_events empty_world))) = [''v1'', ''v2'']"
    unfolding m
    by (simp add: sample_vols_def run_upserts_def apply_upsert_def upsert_rows_def
        profile_upsert_def empty_world_def)
  have d: "\<lparr>dv_id = ''v1'', dv_name = ''Ada'', dv_location = ''Houston'', dv_skills = Some [''Teamwork'']\<rparr>
             \<in> set sample_vols"
    by (simp add: sample_vols_def)
  show ?thesis
    using a b c d seed_twice [OF a, of sample_vols sample_events 86400000]
    by auto
qed


section \<open>The event form\<close>

text \<open>
  Claim C8, as amended. \<open>validate\<close> accepts a form exactly when the name, the description
  and the location are not empty after trimming, the trimmed name has at most 100 code
  units, at least one skill is selected, and the urgency and the event date are not the
  empty string. The urgency and the date are not trimmed, and the date is not checked for
  being a date. An accepted form is sent, with name, description and location trimmed: as
  a new event in create mode, as an update of the selected event in edit mode. A refused
  form is not sent: its message is shown.

  The claim as stated fails on a form whose date is three spaces (empty after trimming) and
  on one whose date is the text \<^verbatim>\<open>tomorrow\<close> (not a date): both are accepted, and the
  second is sent as it is, \<open>validate_unchecked_date\<close>.
\<close>

theorem validate_accepts_iff:
  "(validate f = None) =
     (trim (f_name f) \<noteq> [] \<and> length (trim (f_name f)) \<le> 100
      \<and> trim (f_description f) \<noteq> [] \<and> trim (f_location f) \<noteq> []
      \<and> f_requiredSkills f \<noteq> [] \<and> f_urgency f \<noteq> [] \<and> f_eventDate f \<noteq> [])
   \<and> (validate f = None \<longrightarrow> handleSave CreateMode sel f = Inr (Some (POST (payload f))))
   \<and> (validate f = None \<and> i \<noteq> []
        \<longrightarrow> handleSave EditMode (Some i) f = Inr (Some (PUT i (payload f))))
   \<and> (\<forall>msg. validate f = Some msg \<longrightarrow> handleSave m sel f = Inl msg)"
  by (auto simp add: validate_def handleSave_def)

theorem validate_accepts_iff_witness:
  "validate sample_form = None
   \<and> handleSave CreateMode None sample_form = Inr (Some (POST (payload sample_form)))
   \<and> js ''e1'' \<noteq> []
   \<and> handleSave EditMode (Some (js ''e1'')) sample_form
       = Inr (Some (PUT (js ''e1'') (payload sample_form)))
   \<and> validate (sample_form\<lparr>f_name := js '' ''\<rparr>) = Some ''Event Name is required.''
   \<and> handleSave CreateMode None (sample_form\<lparr>f_name := js '' ''\<rparr>) = Inl ''Event Name is required.''"
proof -
  have a: "validate sample_form = None"
    by (simp add: validate_def sample_form_def js_def trim_def is_ws_def)
  have b: "js ''e1'' \<noteq> []"
    by (simp add: js_def)
  have c: "validate (sample_form\<lparr>f_name := js '' ''\<rparr>) = Some ''Event Name is required.''"
    by (simp add: validate_def sample_form_def js_def trim_def is_ws_def)
  show ?thesis
    using a b c
      validate_accepts_iff [of sample_form None "js ''e1''" CreateMode]
      validate_accepts_iff [of "sample_form\<lparr>f_name := js '' ''\<rparr>" None "js ''e1''" CreateMode]
    by simp
qed

theorem validate_unchecked_date:
  "trim (f_eventDate (sample_form\<lparr>f_eventDate := js ''   ''\<rparr>)) = []
   \<and> validate (sample_form\<lparr>f_eventDate := js ''   ''\<rparr>) = None
   \<and> validate (sample_form\<lparr>f_eventDate := js ''tomorrow''\<rparr>) = None
   \<and> handleSave CreateMode None (sample_form\<lparr>f_eventDate := js ''tomorrow''\<rparr>)
       = Inr (Some (POST (sample_form\<lparr>f_eventDate := js ''tomorrow''\<rparr>)))"
  by (simp add: validate_def handleSave_def payload_def sample_form_def js_def trim_def is_ws_def)

end
